theory Spec2Isabelle
  imports Main "HOL-Library.Word"
begin

section \<open>JavaScript strings\<close>

text \<open>
  A JavaScript string is a sequence of 16-bit code units; \<open>text.length\<close>,
  \<open>indexOf\<close> and \<open>slice\<close> all count code units.  Numbers that index a string are
  modelled as \<open>int\<close>: the chunker adds the chunk size to the cursor and subtracts 100
  from it, so negative positions occur and are given to \<open>indexOf\<close> and \<open>slice\<close>,
  which treat them as the language defines.
\<close>

type_synonym jschar = "16 word"
type_synonym jsstring = "jschar list"

definition ascii :: "string \<Rightarrow> jsstring" where
  "ascii s = map of_char s"

definition period :: jschar where
  "period = 0x2E"

text \<open>
  \<open>s.indexOf(c, fromIndex)\<close> for a one-character search string: the start position
  is \<open>fromIndex\<close> clamped to \<open>0 .. s.length\<close>; the result is the first position at or
  after it that holds \<open>c\<close>, or \<open>-1\<close>.
\<close>

definition js_indexOf :: "jsstring \<Rightarrow> jschar \<Rightarrow> int \<Rightarrow> int" where
  "js_indexOf s c fromIndex =
     (let k = nat (min (max fromIndex 0) (int (length s)))
      in case List.find (\<lambda>i. s ! i = c) [k..<length s] of
           None \<Rightarrow> - 1
         | Some i \<Rightarrow> int i)"

text \<open>
  \<open>s.slice(start, stop)\<close>: a negative argument counts from the end of the string,
  both are clamped to \<open>0 .. s.length\<close>, and the result is empty when the clamped
  stop is not after the clamped start.
\<close>

definition js_slice :: "jsstring \<Rightarrow> int \<Rightarrow> int \<Rightarrow> jsstring" where
  "js_slice s start stop =
     (let len = int (length s);
          lo = (if start < 0 then max (len + start) 0 else min start len);
          hi = (if stop < 0 then max (len + stop) 0 else min stop len)
      in take (nat (max (hi - lo) 0)) (drop (nat lo) s))"

section \<open>The chunker: \<open>splitTextIntoChunks\<close>\<close>

text \<open>
  One pass of the loop body of \<open>splitTextIntoChunks\<close> up to the \<open>push\<close>: the value
  of \<open>endIndex\<close> when the chunk is sliced.
\<close>

definition chunkEnd :: "jsstring \<Rightarrow> int \<Rightarrow> int \<Rightarrow> int" where
  "chunkEnd text chunkSize startIndex =
     (let endIndex = startIndex + chunkSize
      in if endIndex < int (length text) then
           (let nextPeriod = js_indexOf text period (endIndex - 100)
            in if nextPeriod \<noteq> - 1 \<and> nextPeriod - endIndex < 100
               then nextPeriod + 1 else endIndex)
         else endIndex)"

text \<open>
  The \<open>while\<close> loop.  Nothing in the source bounds the number of iterations, so the
  loop is a partial function: \<open>None\<close> is a run that never leaves the loop.
\<close>

partial_function (option) splitLoop ::
    "jsstring \<Rightarrow> int \<Rightarrow> int \<Rightarrow> jsstring list \<Rightarrow> jsstring list option" where
  "splitLoop text chunkSize startIndex chunks =
     (if startIndex < int (length text) then
        splitLoop text chunkSize (chunkEnd text chunkSize startIndex)
          (chunks @ [js_slice text startIndex (chunkEnd text chunkSize startIndex)])
      else Some chunks)"

declare splitLoop.simps [code]

definition splitTextIntoChunks :: "jsstring \<Rightarrow> int \<Rightarrow> jsstring list option" where
  "splitTextIntoChunks text chunkSize = splitLoop text chunkSize 0 []"

definition defaultChunkSize :: int where
  "defaultChunkSize = 80000"

section \<open>More string operations\<close>

text \<open>\<open>s.includes(sub)\<close>: \<open>sub\<close> occurs in \<open>s\<close> as a contiguous run.\<close>

fun js_includes :: "jsstring \<Rightarrow> jsstring \<Rightarrow> bool" where
  "js_includes [] sub = (sub = [])"
| "js_includes (c # cs) sub = (take (length sub) (c # cs) = sub \<or> js_includes cs sub)"

text \<open>\<open>xs.join(sep)\<close> on an array of strings.\<close>

fun js_join :: "jsstring \<Rightarrow> jsstring list \<Rightarrow> jsstring" where
  "js_join sep [] = []"
| "js_join sep [x] = x"
| "js_join sep (x # y # ys) = x @ sep @ js_join sep (y # ys)"

text \<open>
  \<open>s.replace(pat, rep)\<close> with a string pattern: the first occurrence of \<open>pat\<close> is
  replaced.  (The replacement strings of the source hold no \<open>$\<close>.)
\<close>

fun js_replace :: "jsstring \<Rightarrow> jsstring \<Rightarrow> jsstring \<Rightarrow> jsstring" where
  "js_replace [] pat rep = (if pat = [] then rep else [])"
| "js_replace (c # cs) pat rep =
     (if take (length pat) (c # cs) = pat then rep @ drop (length pat) (c # cs)
      else c # js_replace cs pat rep)"

text \<open>\<open>s.replace(/\+/g, ' ')\<close>: every plus sign becomes a space.\<close>

definition plusToSpace :: "jsstring \<Rightarrow> jsstring" where
  "plusToSpace s = map (\<lambda>c. if c = 0x2B then 0x20 else c) s"

section \<open>Errors, inference requests and the trace of effects\<close>

text \<open>A thrown \<open>Error\<close> object; the code reads its \<open>message\<close> only.\<close>

record jserror =
  name :: jsstring
  message :: jsstring

text \<open>
  The two \<open>InvokeModelCommand\<close>s.  Model id, sampling parameters and the prompt
  templates are constants of the source, so a command is determined by the values
  interpolated into its template: the chunk text, \<open>chunkIndex\<close> and \<open>totalChunks\<close>
  for a chunk, the joined chunk summaries for the final summary.
\<close>

datatype request =
    ChunkRequest jsstring nat nat
  | FinalRequest jsstring

text \<open>
  What a run does to the outside world, in order: a \<open>wait(ms)\<close>, an inference
  command sent to Bedrock (logged when it is sent, whatever the outcome), and an
  object that S3 has stored (bucket, key, body).  \<open>console.log\<close> output is not
  modelled.
\<close>

datatype event =
    Wait nat
  | Invoke request
  | Put jsstring jsstring jsstring

type_synonym trace = "event list"

text \<open>The objects a trace has stored, in order: (bucket, key, body).\<close>

fun stored :: "trace \<Rightarrow> (jsstring \<times> jsstring \<times> jsstring) list" where
  "stored [] = []"
| "stored (Put bucket key content # tr) = (bucket, key, content) # stored tr"
| "stored (Wait ms # tr) = stored tr"
| "stored (Invoke command # tr) = stored tr"

text \<open>The inference commands a trace has sent, in order.\<close>

fun sent :: "trace \<Rightarrow> request list" where
  "sent [] = []"
| "sent (Invoke command # tr) = command # sent tr"
| "sent (Wait ms # tr) = sent tr"
| "sent (Put bucket key content # tr) = sent tr"

text \<open>
  The inference service, seen from a \<open>try\<close> block: the outcome of
  \<open>bedrockClient.send(command)\<close> followed by decoding the body and reading
  \<open>content[0].text\<close>.  It is either the text or the error thrown on the way; it may
  depend on everything that happened before the call.
\<close>

type_synonym bedrock = "trace \<Rightarrow> request \<Rightarrow> jserror + jsstring"

definition wait :: "nat \<Rightarrow> trace \<Rightarrow> trace" where
  "wait ms tr = tr @ [Wait ms]"

definition tooManyRequests :: jsstring where
  "tooManyRequests = ascii ''Too many requests''"

section \<open>The retrying summarizer: \<open>generateSummaryForChunk\<close>\<close>

function generateSummaryForChunk ::
    "bedrock \<Rightarrow> jsstring \<Rightarrow> nat \<Rightarrow> nat \<Rightarrow> nat \<Rightarrow> trace \<Rightarrow> (jserror + jsstring) \<times> trace" where
  "generateSummaryForChunk client text chunkIndex totalChunks retryCount tr =
     (let tr1 = tr @ [Invoke (ChunkRequest text chunkIndex totalChunks)]
      in case client tr (ChunkRequest text chunkIndex totalChunks) of
           Inr summary \<Rightarrow> (Inr summary, tr1)
         | Inl error \<Rightarrow>
             if js_includes (message error) tooManyRequests \<and> retryCount < 3 then
               generateSummaryForChunk client text chunkIndex totalChunks (retryCount + 1)
                 (wait (5000 * (retryCount + 1)) tr1)
             else (Inl error, tr1))"
  by pat_completeness auto
termination
  by (relation "measure (\<lambda>(client, text, chunkIndex, totalChunks, retryCount, tr). 3 - retryCount)")
     auto

section \<open>The reducer: \<open>generateFinalSummary\<close>\<close>

definition finalSeparator :: jsstring where
  "finalSeparator =
     [0x0A, 0x0A] @ ascii ''--- Yeni B'' @ [0xF6] @ ascii ''l'' @ [0xFC] @ ascii ''m ---''
       @ [0x0A, 0x0A]"

definition generateFinalSummary ::
    "bedrock \<Rightarrow> jsstring list \<Rightarrow> trace \<Rightarrow> (jserror + jsstring) \<times> trace" where
  "generateFinalSummary client summaries tr =
     (let command = FinalRequest (js_join finalSeparator summaries)
      in (client tr command, tr @ [Invoke command]))"

section \<open>The sequential orchestrator: \<open>processChunksSequentially\<close>\<close>

text \<open>The \<open>for\<close> loop, from index \<open>i\<close> with the summaries pushed so far.\<close>

function processLoop ::
    "bedrock \<Rightarrow> jsstring list \<Rightarrow> nat \<Rightarrow> jsstring list \<Rightarrow> trace
       \<Rightarrow> (jserror + jsstring list) \<times> trace" where
  "processLoop client chunks i summaries tr =
     (if i < length chunks then
        (case generateSummaryForChunk client (chunks ! i) i (length chunks) 0 tr of
           (Inl error, tr1) \<Rightarrow> (Inl error, tr1)
         | (Inr summary, tr1) \<Rightarrow>
             processLoop client chunks (i + 1) (summaries @ [summary])
               (if int i < int (length chunks) - 1 then wait 3000 tr1 else tr1))
      else (Inr summaries, tr))"
  by pat_completeness auto
termination
  by (relation "measure (\<lambda>(client, chunks, i, summaries, tr). length chunks - i)") auto

definition processChunksSequentially ::
    "bedrock \<Rightarrow> jsstring list \<Rightarrow> trace \<Rightarrow> (jserror + jsstring list) \<times> trace" where
  "processChunksSequentially client chunks tr = processLoop client chunks 0 [] tr"

section \<open>The pipeline driver: \<open>handler\<close>\<close>

text \<open>
  The Lambda event: either it has the path \<open>Records[0].s3\<close> with a bucket name and
  an object key, or reading that path throws (the error is carried along).
\<close>

datatype lambda_event =
    S3Put jsstring jsstring
  | Malformed jserror

text \<open>
  The collaborators that are not in the source: the built-in
  \<open>decodeURIComponent\<close>, the S3 \<open>GetObject\<close> call with
  \<open>transformToByteArray\<close>, \<open>pdf-parse\<close> (bytes to \<open>data.text\<close>), the inference
  service and the S3 \<open>PutObject\<close> call (bucket, key, body).
\<close>

record env =
  decodeURIComponent :: "jsstring \<Rightarrow> jserror + jsstring"
  getObject :: "jsstring \<Rightarrow> jsstring \<Rightarrow> jserror + 8 word list"
  pdfParse :: "8 word list \<Rightarrow> jserror + jsstring"
  bedrockClient :: bedrock
  putObject :: "trace \<Rightarrow> jsstring \<Rightarrow> jsstring \<Rightarrow> jsstring \<Rightarrow> jserror + unit"

text \<open>The JSON bodies of the two responses, by field.\<close>

datatype body =
    Processed jsstring jsstring jsstring
  | Failure jsstring jsstring

record response =
  statusCode :: nat
  body :: body

definition detailedSeparator :: jsstring where
  "detailedSeparator =
     [0x0A, 0x0A] @ ascii ''=== YEN'' @ [0x130] @ ascii '' B'' @ [0xD6] @ ascii ''L'' @ [0xDC]
       @ ascii ''M ==='' @ [0x0A, 0x0A]"

text \<open>The \<open>catch\<close> block of \<open>handler\<close>.\<close>

definition failed :: "jserror \<Rightarrow> trace \<Rightarrow> (response \<times> trace) option" where
  "failed error tr =
     Some (\<lparr>statusCode = 500,
            body = Failure (ascii ''Failed to process PDF'') (message error)\<rparr>, tr)"

text \<open>
  The handler.  \<open>None\<close> is a run in which the chunker never returns; every other
  run ends in a response, since the \<open>try\<close> block spans the whole body.
\<close>

definition handler :: "env \<Rightarrow> lambda_event \<Rightarrow> trace \<Rightarrow> (response \<times> trace) option" where
  "handler e event tr =
     (case event of
        Malformed error \<Rightarrow> failed error tr
      | S3Put bucket rawKey \<Rightarrow>
     (case decodeURIComponent e (plusToSpace rawKey) of
        Inl error \<Rightarrow> failed error tr
      | Inr key \<Rightarrow>
     (case getObject e bucket key of
        Inl error \<Rightarrow> failed error tr
      | Inr pdfBuffer \<Rightarrow>
     (case pdfParse e pdfBuffer of
        Inl error \<Rightarrow> failed error tr
      | Inr fullText \<Rightarrow>
     (case splitTextIntoChunks fullText defaultChunkSize of
        None \<Rightarrow> None
      | Some chunks \<Rightarrow>
     (case processChunksSequentially (bedrockClient e) chunks tr of
        (Inl error, tr1) \<Rightarrow> failed error tr1
      | (Inr chunkSummaries, tr1) \<Rightarrow>
     (case generateFinalSummary (bedrockClient e) chunkSummaries (wait 3000 tr1) of
        (Inl error, tr2) \<Rightarrow> failed error tr2
      | (Inr finalSummary, tr2) \<Rightarrow>
     (let summaryKey =
            js_replace (js_replace key (ascii ''pdfs/'') (ascii ''summaries/''))
              (ascii ''.pdf'') (ascii ''.txt'')
      in case putObject e tr2 bucket summaryKey finalSummary of
        Inl error \<Rightarrow> failed error tr2
      | Inr u \<Rightarrow>
     (let tr3 = tr2 @ [Put bucket summaryKey finalSummary];
          detailedSummaryKey =
            js_replace (js_replace key (ascii ''pdfs/'') (ascii ''summaries/detailed_''))
              (ascii ''.pdf'') (ascii ''.txt'');
          detailedSummary = js_join detailedSeparator chunkSummaries
      in case putObject e tr3 bucket detailedSummaryKey detailedSummary of
        Inl error \<Rightarrow> failed error tr3
      | Inr u \<Rightarrow>
          Some (\<lparr>statusCode = 200,
                 body = Processed (ascii ''PDF successfully processed and summaries created'')
                          summaryKey detailedSummaryKey\<rparr>,
                tr3 @ [Put bucket detailedSummaryKey detailedSummary]))))))))))"

declare generateSummaryForChunk.simps [simp del]
declare processLoop.simps [simp del]

section \<open>Test doubles\<close>

text \<open>
  Collaborators with a fixed behaviour, for running the functions above on concrete
  inputs.
\<close>

definition throttlingError :: jserror where
  "throttlingError =
     \<lparr>name = ascii ''ThrottlingException'',
      message = ascii ''Too many requests, please wait before trying again.''\<rparr>"

definition fatalError :: jserror where
  "fatalError =
     \<lparr>name = ascii ''ValidationException'', message = ascii ''Malformed input request''\<rparr>"

definition storageError :: jserror where
  "storageError = \<lparr>name = ascii ''AccessDenied'', message = ascii ''Access Denied''\<rparr>"

definition alwaysThrottled :: bedrock where
  "alwaysThrottled tr command = Inl throttlingError"

definition alwaysFatal :: bedrock where
  "alwaysFatal tr command = Inl fatalError"

text \<open>Throttled on the first command it is sent, answering every later one.\<close>

definition throttledOnce :: bedrock where
  "throttledOnce tr command =
     (if sent tr = [] then Inl throttlingError else Inr (ascii ''ok''))"

text \<open>Answers every chunk but the one with index 1, which it rejects.\<close>

definition failsOnSecond :: bedrock where
  "failsOnSecond tr command =
     (case command of
        ChunkRequest text chunkIndex totalChunks \<Rightarrow>
          if chunkIndex = 1 then Inl fatalError else Inr (ascii ''ok'')
      | FinalRequest summaries \<Rightarrow> Inr (ascii ''ok''))"

text \<open>Decimal digits of a number, as \<open>String(n)\<close> gives them.\<close>

fun decimal :: "nat \<Rightarrow> jsstring" where
  "decimal n =
     (if n < 10 then [of_nat (48 + n)] else decimal (n div 10) @ [of_nat (48 + n mod 10)])"

declare decimal.simps [simp del]

text \<open>
  The stub of the end-to-end example: \<open>summary-N\<close> for the chunk with index \<open>N\<close>,
  one fixed text for the final summary.
\<close>

definition summaryStub :: bedrock where
  "summaryStub tr command =
     (case command of
        ChunkRequest text chunkIndex totalChunks \<Rightarrow> Inr (ascii ''summary-'' @ decimal chunkIndex)
      | FinalRequest summaries \<Rightarrow> Inr (ascii ''final-summary''))"

text \<open>
  A document of 80150 characters whose only period is at offset 80070.
\<close>

definition exampleText :: jsstring where
  "exampleText = replicate 80070 0x61 @ [period] @ replicate 79 0x61"

text \<open>
  An environment in which every object holds a PDF whose extracted text is
  \<open>fullText\<close>, inference is \<open>client\<close>, and every \<open>PutObject\<close> succeeds.
\<close>

definition stubEnv :: "jsstring \<Rightarrow> bedrock \<Rightarrow> env" where
  "stubEnv fullText client =
     \<lparr>decodeURIComponent = Inr,
      getObject = (\<lambda>bucket key. Inr []),
      pdfParse = (\<lambda>pdfBuffer. Inr fullText),
      bedrockClient = client,
      putObject = (\<lambda>tr bucket key content. Inr ())\<rparr>"

text \<open>The same, but S3 stores one object and rejects every later \<open>PutObject\<close>.\<close>

definition secondPutFails :: "jsstring \<Rightarrow> bedrock \<Rightarrow> env" where
  "secondPutFails fullText client =
     (stubEnv fullText client)
       \<lparr>putObject := (\<lambda>tr bucket key content.
          if stored tr \<noteq> [] then Inl storageError else Inr ())\<rparr>"

section \<open>Properties of \<open>indexOf\<close> and \<open>slice\<close>\<close>

lemma js_indexOf_none:
  "js_indexOf s c f = - 1 \<longleftrightarrow> (\<forall>j. max f 0 \<le> int j \<and> j < length s \<longrightarrow> s ! j \<noteq> c)"
proof -
  define k where "k = nat (min (max f 0) (int (length s)))"
  have k: "\<And>j. j < length s \<Longrightarrow> (k \<le> j) = (max f 0 \<le> int j)"
    unfolding k_def by auto
  have "js_indexOf s c f = - 1 \<longleftrightarrow> List.find (\<lambda>i. s ! i = c) [k..<length s] = None"
    unfolding js_indexOf_def k_def Let_def by (auto split: option.splits)
  also have "\<dots> \<longleftrightarrow> (\<forall>j. k \<le> j \<and> j < length s \<longrightarrow> s ! j \<noteq> c)"
    by (auto simp: find_None_iff)
  also have "\<dots> \<longleftrightarrow> (\<forall>j. max f 0 \<le> int j \<and> j < length s \<longrightarrow> s ! j \<noteq> c)"
    using k by blast
  finally show ?thesis .
qed

lemma js_indexOf_some:
  "js_indexOf s c f = int p \<longleftrightarrow>
     (max f 0 \<le> int p \<and> p < length s \<and> s ! p = c \<and>
      (\<forall>j. max f 0 \<le> int j \<and> j < p \<longrightarrow> s ! j \<noteq> c))"
proof -
  define k where "k = nat (min (max f 0) (int (length s)))"
  have k: "\<And>j. j < length s \<Longrightarrow> (k \<le> j) = (max f 0 \<le> int j)"
    unfolding k_def by auto
  have "js_indexOf s c f = int p \<longleftrightarrow> List.find (\<lambda>i. s ! i = c) [k..<length s] = Some p"
    unfolding js_indexOf_def k_def Let_def by (auto split: option.splits)
  also have "\<dots> \<longleftrightarrow> (k \<le> p \<and> p < length s \<and> s ! p = c \<and> (\<forall>j. k \<le> j \<and> j < p \<longrightarrow> s ! j \<noteq> c))"
  proof
    assume "List.find (\<lambda>i. s ! i = c) [k..<length s] = Some p"
    then obtain i where i: "i < length [k..<length s]" "s ! ([k..<length s] ! i) = c"
        "p = [k..<length s] ! i" "\<forall>j<i. s ! ([k..<length s] ! j) \<noteq> c"
      unfolding find_Some_iff by blast
    from i(1) have il: "k + i < length s" by simp
    with i(3) have p: "p = k + i" by simp
    have "\<forall>j. k \<le> j \<and> j < p \<longrightarrow> s ! j \<noteq> c"
    proof (intro allI impI)
      fix j assume j: "k \<le> j \<and> j < p"
      then have "j - k < i" using p by arith
      with i(4) have "s ! ([k..<length s] ! (j - k)) \<noteq> c" by blast
      moreover have "[k..<length s] ! (j - k) = j" using j il p by simp
      ultimately show "s ! j \<noteq> c" by simp
    qed
    with i(2) il p show "k \<le> p \<and> p < length s \<and> s ! p = c \<and> (\<forall>j. k \<le> j \<and> j < p \<longrightarrow> s ! j \<noteq> c)"
      by simp
  next
    assume a: "k \<le> p \<and> p < length s \<and> s ! p = c \<and> (\<forall>j. k \<le> j \<and> j < p \<longrightarrow> s ! j \<noteq> c)"
    have "p - k < length [k..<length s] \<and> s ! ([k..<length s] ! (p - k)) = c \<and>
        p = [k..<length s] ! (p - k) \<and> (\<forall>j<p - k. s ! ([k..<length s] ! j) \<noteq> c)"
      using a by auto
    then show "List.find (\<lambda>i. s ! i = c) [k..<length s] = Some p"
      unfolding find_Some_iff by blast
  qed
  also have "\<dots> \<longleftrightarrow> (max f 0 \<le> int p \<and> p < length s \<and> s ! p = c \<and>
      (\<forall>j. max f 0 \<le> int j \<and> j < p \<longrightarrow> s ! j \<noteq> c))"
    using k by (metis (no_types, lifting) less_trans)
  finally show ?thesis .
qed

lemma js_indexOf_range: "js_indexOf s c f = - 1 \<or> (\<exists>p. js_indexOf s c f = int p)"
  unfolding js_indexOf_def Let_def by (auto split: option.splits)

section \<open>Properties of the chunker\<close>

text \<open>
  The cut of one iteration is either the naive boundary \<open>startIndex + chunkSize\<close> or
  the position just after the first period at or after \<open>naive - 100\<close>, which is taken
  when it lies less than 100 positions after the naive boundary.
\<close>

lemma chunkEnd_cases:
  "chunkEnd t cs s = s + cs \<or>
   (\<exists>p. chunkEnd t cs s = int p + 1 \<and> s + cs < int (length t) \<and> p < length t \<and> t ! p = period \<and>
        max (s + cs - 100) 0 \<le> int p \<and> int p < s + cs + 100 \<and>
        (\<forall>j. max (s + cs - 100) 0 \<le> int j \<and> j < p \<longrightarrow> t ! j \<noteq> period))"
proof (cases "chunkEnd t cs s = s + cs")
  case True
  then show ?thesis by simp
next
  case False
  then have lt: "s + cs < int (length t)"
    and ne: "js_indexOf t period (s + cs - 100) \<noteq> - 1"
    and near: "js_indexOf t period (s + cs - 100) - (s + cs) < 100"
    and ce: "chunkEnd t cs s = js_indexOf t period (s + cs - 100) + 1"
    unfolding chunkEnd_def Let_def by (auto split: if_splits)
  from ne js_indexOf_range[of t period "s + cs - 100"]
  obtain p where p: "js_indexOf t period (s + cs - 100) = int p" by blast
  from p[unfolded js_indexOf_some] p ce near lt show ?thesis by auto
qed

lemma chunkEnd_naive:
  assumes "\<forall>p. max (s + cs - 100) 0 \<le> int p \<and> int p < s + cs + 100 \<and> p < length t \<longrightarrow> t ! p \<noteq> period"
  shows "chunkEnd t cs s = s + cs"
  using chunkEnd_cases[of t cs s] assms by auto

lemma chunkEnd_period:
  assumes "s + cs < int (length t)" "p < length t" "t ! p = period"
    "max (s + cs - 100) 0 \<le> int p" "int p < s + cs + 100"
    "\<forall>j. max (s + cs - 100) 0 \<le> int j \<and> j < p \<longrightarrow> t ! j \<noteq> period"
  shows "chunkEnd t cs s = int p + 1"
proof -
  have "js_indexOf t period (s + cs - 100) = int p"
    unfolding js_indexOf_some using assms by simp
  then show ?thesis using assms(1,5) unfolding chunkEnd_def Let_def by simp
qed

lemma chunkEnd_past_end: "int (length t) \<le> s + cs \<Longrightarrow> chunkEnd t cs s = s + cs"
  unfolding chunkEnd_def Let_def by simp

lemma chunkEnd_advance: "100 \<le> cs \<Longrightarrow> s < chunkEnd t cs s"
  using chunkEnd_cases[of t cs s] by auto

lemma js_slice_nonneg:
  "0 \<le> a \<Longrightarrow> a \<le> b \<Longrightarrow> js_slice t a b = take (nat b - nat a) (drop (nat a) t)"
  unfolding js_slice_def Let_def by (auto simp: min_def max_def nat_diff_distrib)

lemma splitLoop_total:
  assumes cs: "100 \<le> cs"
  shows "0 \<le> s \<Longrightarrow> \<exists>rest. splitLoop t cs s chunks = Some (chunks @ rest) \<and>
           concat rest = drop (nat s) t \<and> (\<forall>c\<in>set rest. c \<noteq> [])"
proof (induction "length t - nat s" arbitrary: s chunks rule: less_induct)
  case less
  show ?case
  proof (cases "s < int (length t)")
    case False
    then have "splitLoop t cs s chunks = Some chunks" by (subst splitLoop.simps) simp
    moreover from False less.prems have "drop (nat s) t = []" by simp
    ultimately show ?thesis by simp
  next
    case True
    define e where "e = chunkEnd t cs s"
    have adv: "s < e" unfolding e_def using cs by (rule chunkEnd_advance)
    have sl: "js_slice t s e = take (nat e - nat s) (drop (nat s) t)"
      using less.prems adv by (simp add: js_slice_nonneg)
    have ne: "js_slice t s e \<noteq> []"
      using sl True adv less.prems by auto
    have "length t - nat e < length t - nat s" using True adv less.prems by linarith
    moreover have "0 \<le> e" using adv less.prems by simp
    ultimately obtain rest where r: "splitLoop t cs e ((chunks @ [js_slice t s e])) = Some ((chunks @ [js_slice t s e]) @ rest)"
      "concat rest = drop (nat e) t" "\<forall>c\<in>set rest. c \<noteq> []"
      using less.hyps[of e "chunks @ [js_slice t s e]"] by blast
    have "splitLoop t cs s chunks = splitLoop t cs e (chunks @ [js_slice t s e])"
      by (subst splitLoop.simps) (simp add: True e_def)
    with r(1) have 1: "splitLoop t cs s chunks = Some (chunks @ (js_slice t s e # rest))" by simp
    have "drop (nat e) t = drop (nat e - nat s) (drop (nat s) t)"
      using adv less.prems by simp
    then have 2: "concat (js_slice t s e # rest) = drop (nat s) t"
      using r(2) sl append_take_drop_id[of "nat e - nat s" "drop (nat s) t"]
      by (simp del: append_take_drop_id drop_drop)
    from 1 2 ne r(3) show ?thesis by (intro exI[of _ "js_slice t s e # rest"]) simp
  qed
qed

lemma splitLoop_stuck:
  assumes "splitLoop t cs s chunks = Some y"
  shows "\<not> (s < int (length t) \<and> chunkEnd t cs s = s)"
proof (rule splitLoop.raw_induct
    [where P = "\<lambda>t cs s chunks y. \<not> (s < int (length t) \<and> chunkEnd t cs s = s)", OF _ assms])
  fix f t cs s chunks y
  assume IH: "\<And>t cs s chunks y. f t cs s chunks = Some y \<Longrightarrow>
      \<not> (s < int (length t) \<and> chunkEnd t cs s = s)"
    and eq: "(if s < int (length t)
         then f t cs (chunkEnd t cs s) (chunks @ [js_slice t s (chunkEnd t cs s)])
         else Some chunks) = Some y"
  show "\<not> (s < int (length t) \<and> chunkEnd t cs s = s)"
  proof
    assume a: "s < int (length t) \<and> chunkEnd t cs s = s"
    with eq have "f t cs s (chunks @ [js_slice t s s]) = Some y" by simp
    from IH[OF this] a show False by simp
  qed
qed

lemma concat_nth_slice:
  assumes "i < length xss"
  shows "take (length (xss ! i)) (drop (length (concat (take i xss))) (concat xss)) = xss ! i"
proof -
  have "xss = take i xss @ xss ! i # drop (Suc i) xss" using assms by (rule id_take_nth_drop)
  then have "concat xss = concat (take i xss) @ xss ! i @ concat (drop (Suc i) xss)"
    by (metis concat.simps(2) concat_append)
  then show ?thesis by simp
qed

lemma splitTextIntoChunks_total:
  assumes "100 \<le> chunkSize"
  shows "\<exists>chunks. splitTextIntoChunks text chunkSize = Some chunks \<and> concat chunks = text \<and>
           (\<forall>c\<in>set chunks. c \<noteq> [])"
  using splitLoop_total[OF assms, of 0 "text" "[]"] unfolding splitTextIntoChunks_def by simp

lemma splitLoop_stuck_None:
  "s < int (length t) \<Longrightarrow> chunkEnd t cs s = s \<Longrightarrow> splitLoop t cs s chunks = None"
  using splitLoop_stuck[of t cs s chunks] by (cases "splitLoop t cs s chunks") auto

subsection \<open>Chunk coverage\<close>

text \<open>
  C1, as stated, for every chunk size: it fails.  With chunk size 1 on the text
  \<open>.ab\<close> the first chunk ends after the period at position 0; from cursor 1 the
  search starts at position 0 again, finds the same period and sets the boundary to
  1, the cursor itself.  The loop pushes empty chunks for ever and returns nothing.
\<close>

theorem chunk_coverage_counterexample:
  "splitTextIntoChunks (ascii ''.ab'') 1 = None"
proof -
  have e0: "chunkEnd (ascii ''.ab'') 1 0 = 1"
    by (simp add: chunkEnd_def js_indexOf_def ascii_def period_def)
  have e1: "chunkEnd (ascii ''.ab'') 1 1 = 1"
    by (simp add: chunkEnd_def js_indexOf_def ascii_def period_def)
  have len: "int (length (ascii ''.ab'')) = 3" by (simp add: ascii_def)
  have "splitTextIntoChunks (ascii ''.ab'') 1 =
      splitLoop (ascii ''.ab'') 1 1 ([] @ [js_slice (ascii ''.ab'') 0 1])"
    unfolding splitTextIntoChunks_def by (subst splitLoop.simps) (simp only: e0 len, simp)
  also have "\<dots> = None" by (rule splitLoop_stuck_None) (simp_all add: len e1)
  finally show ?thesis .
qed

text \<open>
  C1, amended: for every text and every chunk size of at least 100 (the default is
  80000) \<open>splitTextIntoChunks\<close> returns; the chunks concatenated in array order
  are the text; no chunk is empty; and the chunk at array index \<open>i\<close>, for each
  \<open>i\<close> from 0 to \<open>n - 1\<close>, is the slice of the text between the total length of
  the chunks before it and that length plus its own.
\<close>

theorem chunk_coverage:
  assumes "100 \<le> chunkSize"
  shows "\<exists>chunks. splitTextIntoChunks text chunkSize = Some chunks \<and> concat chunks = text \<and>
           (\<forall>c\<in>set chunks. c \<noteq> []) \<and>
           (\<forall>i<length chunks. chunks ! i =
              js_slice text (int (length (concat (take i chunks))))
                (int (length (concat (take (Suc i) chunks)))))"
proof -
  from splitTextIntoChunks_total[OF assms, of "text"]
  obtain chunks where c: "splitTextIntoChunks text chunkSize = Some chunks" "concat chunks = text"
    "\<forall>c\<in>set chunks. c \<noteq> []" by blast
  have "chunks ! i = js_slice text (int (length (concat (take i chunks))))
                (int (length (concat (take (Suc i) chunks))))" if i: "i < length chunks" for i
  proof -
    have "take (Suc i) chunks = take i chunks @ [chunks ! i]" using i by (rule take_Suc_conv_app_nth)
    then have l: "length (concat (take (Suc i) chunks)) = length (concat (take i chunks)) + length (chunks ! i)"
      by simp
    have "js_slice text (int (length (concat (take i chunks)))) (int (length (concat (take (Suc i) chunks))))
        = take (length (chunks ! i)) (drop (length (concat (take i chunks))) text)"
      by (subst js_slice_nonneg) (simp_all add: l nat_int_add)
    also have "\<dots> = chunks ! i" using concat_nth_slice[OF i] c(2) by simp
    finally show ?thesis by simp
  qed
  with c show ?thesis by blast
qed

theorem chunk_coverage_witness:
  "(100::int) \<le> 150 \<and>
   (\<exists>chunks. splitTextIntoChunks (replicate 400 0x61) 150 = Some chunks \<and>
      concat chunks = replicate 400 0x61 \<and> (\<forall>c\<in>set chunks. c \<noteq> []) \<and>
      (\<forall>i<length chunks. chunks ! i =
         js_slice (replicate 400 0x61) (int (length (concat (take i chunks))))
           (int (length (concat (take (Suc i) chunks))))))"
  using chunk_coverage[of 150 "replicate 400 0x61"] by simp

subsection \<open>Where the chunker cuts\<close>

text \<open>
  C2, as stated: it fails.  In a text of 261 characters whose only period is at
  position 160, with chunk size 150 and the cursor at 0, the naive boundary is 150
  and no period lies in the 100 positions before it; the search runs forward from
  position 50, finds the period at 160, ten positions past the naive boundary, and
  the cut is at 161.
\<close>

theorem no_terminator_fallback_counterexample:
  "period \<notin> set (take 100 (drop 50 (replicate 160 0x61 @ [period] @ replicate 100 0x61))) \<and>
   chunkEnd (replicate 160 0x61 @ [period] @ replicate 100 0x61) 150 0 = 161"
proof
  show "period \<notin> set (take 100 (drop 50 (replicate 160 0x61 @ [period] @ replicate 100 0x61)))"
    by (simp add: period_def)
  have "chunkEnd (replicate 160 0x61 @ [period] @ replicate 100 0x61) 150 0 = int 160 + 1"
    by (rule chunkEnd_period) (auto simp: nth_append period_def)
  then show "chunkEnd (replicate 160 0x61 @ [period] @ replicate 100 0x61) 150 0 = 161" by simp
qed

text \<open>
  C2, amended: if no period occurs at any position from 100 before the naive
  boundary (or from 0, if that is negative) up to, but excluding, 100 after it, the
  chunker cuts exactly at the naive boundary, and so it does whenever the naive
  boundary is not before the end of the text.  Otherwise, that is when the naive
  boundary is before the end of the text and the first period at or after the
  position 100 before it lies less than 100 positions after it, the cut is just
  after that period: the search may select a position past the naive boundary, but
  less than 100 past it.  These are the only two cuts.
\<close>

theorem no_terminator_fallback:
  "((\<forall>p. max (startIndex + chunkSize - 100) 0 \<le> int p \<and> int p < startIndex + chunkSize + 100 \<and>
         p < length text \<longrightarrow> text ! p \<noteq> period)
      \<longrightarrow> chunkEnd text chunkSize startIndex = startIndex + chunkSize) \<and>
   (int (length text) \<le> startIndex + chunkSize
      \<longrightarrow> chunkEnd text chunkSize startIndex = startIndex + chunkSize) \<and>
   (startIndex + chunkSize < int (length text) \<and> p < length text \<and> text ! p = period \<and>
    max (startIndex + chunkSize - 100) 0 \<le> int p \<and> int p < startIndex + chunkSize + 100 \<and>
    (\<forall>j. max (startIndex + chunkSize - 100) 0 \<le> int j \<and> j < p \<longrightarrow> text ! j \<noteq> period)
      \<longrightarrow> chunkEnd text chunkSize startIndex = int p + 1) \<and>
   (chunkEnd text chunkSize startIndex = startIndex + chunkSize \<or>
    (\<exists>p<length text. text ! p = period \<and> chunkEnd text chunkSize startIndex = int p + 1 \<and>
        startIndex + chunkSize - 100 \<le> int p \<and> int p < startIndex + chunkSize + 100 \<and>
        (\<forall>j. max (startIndex + chunkSize - 100) 0 \<le> int j \<and> j < p \<longrightarrow> text ! j \<noteq> period)))"
proof (intro conjI impI)
  assume "\<forall>p. max (startIndex + chunkSize - 100) 0 \<le> int p \<and> int p < startIndex + chunkSize + 100 \<and>
         p < length text \<longrightarrow> text ! p \<noteq> period"
  then show "chunkEnd text chunkSize startIndex = startIndex + chunkSize" by (rule chunkEnd_naive)
next
  assume "int (length text) \<le> startIndex + chunkSize"
  then show "chunkEnd text chunkSize startIndex = startIndex + chunkSize" by (rule chunkEnd_past_end)
next
  assume "startIndex + chunkSize < int (length text) \<and> p < length text \<and> text ! p = period \<and>
    max (startIndex + chunkSize - 100) 0 \<le> int p \<and> int p < startIndex + chunkSize + 100 \<and>
    (\<forall>j. max (startIndex + chunkSize - 100) 0 \<le> int j \<and> j < p \<longrightarrow> text ! j \<noteq> period)"
  then show "chunkEnd text chunkSize startIndex = int p + 1"
    by (intro chunkEnd_period) simp_all
next
  show "chunkEnd text chunkSize startIndex = startIndex + chunkSize \<or>
    (\<exists>p<length text. text ! p = period \<and> chunkEnd text chunkSize startIndex = int p + 1 \<and>
        startIndex + chunkSize - 100 \<le> int p \<and> int p < startIndex + chunkSize + 100 \<and>
        (\<forall>j. max (startIndex + chunkSize - 100) 0 \<le> int j \<and> j < p \<longrightarrow> text ! j \<noteq> period))"
    using chunkEnd_cases[of "text" chunkSize startIndex] by auto
qed

theorem no_terminator_fallback_witness:
  "period \<notin> set (replicate 300 (0x61::jschar)) \<and>
   chunkEnd (replicate 300 0x61) 150 0 = 150 \<and>
   int (length (replicate 200 (0x61::jschar))) \<le> 100 + 150 \<and>
   chunkEnd (replicate 200 0x61) 150 100 = 250 \<and>
   (replicate 120 0x61 @ [period] @ replicate 50 0x61 @ [period] @ replicate 128 0x61) ! 120 = period \<and>
   period \<notin> set (take 70 (drop 50
      (replicate 120 0x61 @ [period] @ replicate 50 0x61 @ [period] @ replicate 128 0x61))) \<and>
   chunkEnd (replicate 120 0x61 @ [period] @ replicate 50 0x61 @ [period] @ replicate 128 0x61)
      150 0 = 121 \<and>
   (replicate 220 0x61 @ [period] @ replicate 79 0x61) ! 220 = period \<and>
   period \<notin> set (take 120 (drop 100 (replicate 220 0x61 @ [period] @ replicate 79 0x61))) \<and>
   chunkEnd (replicate 220 0x61 @ [period] @ replicate 79 0x61) 150 50 = 221"
proof -
  let ?a = "replicate 120 0x61 @ [period] @ replicate 50 0x61 @ [period] @ replicate 128 (0x61::jschar)"
  let ?b = "replicate 220 0x61 @ [period] @ replicate 79 (0x61::jschar)"
  have h: "\<forall>p. max (0 + 150 - 100) 0 \<le> int p \<and> int p < 0 + 150 + 100 \<and>
        p < length (replicate 300 (0x61::jschar))
       \<longrightarrow> replicate 300 (0x61::jschar) ! p \<noteq> period"
    by (simp add: period_def)
  have h2: "int (length (replicate 200 (0x61::jschar))) \<le> 100 + 150" by simp
  from no_terminator_fallback[of 0 150 "replicate 300 0x61"] h
  have 1: "chunkEnd (replicate 300 0x61) 150 0 = 150" by simp
  from no_terminator_fallback[of 100 150 "replicate 200 0x61"] h2
  have 2: "chunkEnd (replicate 200 0x61) 150 100 = 250" by simp
  have 3: "period \<notin> set (replicate 300 (0x61::jschar))" by (simp add: period_def)
  have a1: "?a ! 120 = period" by (simp add: nth_append)
  have a2: "period \<notin> set (take 70 (drop 50 ?a))" by (simp add: period_def)
  have a3: "0 + 150 < int (length ?a) \<and> 120 < length ?a \<and> ?a ! 120 = period \<and>
    max (0 + 150 - 100) 0 \<le> int 120 \<and> int 120 < 0 + 150 + 100 \<and>
    (\<forall>j. max (0 + 150 - 100) 0 \<le> int j \<and> j < 120 \<longrightarrow> ?a ! j \<noteq> period)"
    by (simp add: nth_append period_def)
  from no_terminator_fallback[of 0 150 ?a 120] a3
  have 4: "chunkEnd ?a 150 0 = 121" by simp
  have b1: "?b ! 220 = period" by (simp add: nth_append)
  have b2: "period \<notin> set (take 120 (drop 100 ?b))" by (simp add: period_def)
  have b3: "50 + 150 < int (length ?b) \<and> 220 < length ?b \<and> ?b ! 220 = period \<and>
    max (50 + 150 - 100) 0 \<le> int 220 \<and> int 220 < 50 + 150 + 100 \<and>
    (\<forall>j. max (50 + 150 - 100) 0 \<le> int j \<and> j < 220 \<longrightarrow> ?b ! j \<noteq> period)"
    by (simp add: nth_append period_def)
  from no_terminator_fallback[of 50 150 ?b 220] b3
  have 5: "chunkEnd ?b 150 50 = 221" by simp
  from 1 2 3 4 5 h2 a1 a2 b1 b2 show ?thesis by blast
qed

subsection \<open>Progress of the loop\<close>

text \<open>
  C10: for every text and every chunk size of at least 101, each iteration moves the
  cursor strictly forward (the boundary it chooses exceeds the cursor, wherever the
  cursor is), \<open>splitTextIntoChunks\<close> returns, and no returned chunk is empty.  The
  bound matters: with chunk size 2 on the text \<open>a.bcd\<close> the search window of the
  second iteration starts before the cursor 2, the boundary chosen is 2 again, and
  the loop never ends.
\<close>

theorem chunker_advances:
  "(101 \<le> chunkSize \<longrightarrow>
      (\<forall>startIndex. startIndex < chunkEnd text chunkSize startIndex) \<and>
      (\<exists>chunks. splitTextIntoChunks text chunkSize = Some chunks \<and> (\<forall>c\<in>set chunks. c \<noteq> []))) \<and>
   chunkEnd (ascii ''a.bcd'') 2 2 \<le> 2 \<and> splitTextIntoChunks (ascii ''a.bcd'') 2 = None"
proof (intro conjI impI allI)
  fix startIndex
  assume "101 \<le> chunkSize"
  then show "startIndex < chunkEnd text chunkSize startIndex" by (simp add: chunkEnd_advance)
next
  assume "101 \<le> chunkSize"
  then have "100 \<le> chunkSize" by simp
  from splitTextIntoChunks_total[OF this, of "text"]
  show "\<exists>chunks. splitTextIntoChunks text chunkSize = Some chunks \<and> (\<forall>c\<in>set chunks. c \<noteq> [])"
    by blast
next
  have e0: "chunkEnd (ascii ''a.bcd'') 2 0 = 2"
    by (simp add: chunkEnd_def js_indexOf_def ascii_def period_def)
  have e2: "chunkEnd (ascii ''a.bcd'') 2 2 = 2"
    by (simp add: chunkEnd_def js_indexOf_def ascii_def period_def)
  show "chunkEnd (ascii ''a.bcd'') 2 2 \<le> 2" using e2 by simp
  have len: "int (length (ascii ''a.bcd'')) = 5" by (simp add: ascii_def)
  have "splitTextIntoChunks (ascii ''a.bcd'') 2 =
      splitLoop (ascii ''a.bcd'') 2 2 ([] @ [js_slice (ascii ''a.bcd'') 0 2])"
    unfolding splitTextIntoChunks_def by (subst splitLoop.simps) (simp only: e0 len, simp)
  also have "\<dots> = None" by (rule splitLoop_stuck_None) (simp_all add: len e2)
  finally show "splitTextIntoChunks (ascii ''a.bcd'') 2 = None" .
qed

theorem chunker_advances_witness:
  "(101::int) \<le> 80000 \<and>
   (\<forall>startIndex. startIndex < chunkEnd (ascii ''a.bcd'') 80000 startIndex) \<and>
   (\<exists>chunks. splitTextIntoChunks (ascii ''a.bcd'') 80000 = Some chunks \<and> (\<forall>c\<in>set chunks. c \<noteq> []))"
  using chunker_advances[of 80000 "ascii ''a.bcd''"] by simp

section \<open>Properties of the retrying summarizer\<close>

lemma throttled_message: "js_includes (message throttlingError) tooManyRequests"
  by (simp add: throttlingError_def tooManyRequests_def ascii_def)

lemma fatal_message: "\<not> js_includes (message fatalError) tooManyRequests"
  by (simp add: fatalError_def tooManyRequests_def ascii_def)

lemma generateSummaryForChunk_success:
  "client tr (ChunkRequest t i n) = Inr summary \<Longrightarrow>
   generateSummaryForChunk client t i n r tr = (Inr summary, tr @ [Invoke (ChunkRequest t i n)])"
  by (subst generateSummaryForChunk.simps) simp

lemma generateSummaryForChunk_throw:
  "client tr (ChunkRequest t i n) = Inl e \<Longrightarrow> \<not> (js_includes (message e) tooManyRequests \<and> r < 3) \<Longrightarrow>
   generateSummaryForChunk client t i n r tr = (Inl e, tr @ [Invoke (ChunkRequest t i n)])"
  by (subst generateSummaryForChunk.simps) auto

lemma generateSummaryForChunk_retry:
  "client tr (ChunkRequest t i n) = Inl e \<Longrightarrow> js_includes (message e) tooManyRequests \<Longrightarrow> r < 3 \<Longrightarrow>
   generateSummaryForChunk client t i n r tr =
     generateSummaryForChunk client t i n (r + 1)
       (tr @ [Invoke (ChunkRequest t i n), Wait (5000 * (r + 1))])"
  by (subst generateSummaryForChunk.simps) (simp add: wait_def)

text \<open>
  C4: if every attempt for a segment fails with an error whose message contains
  \<open>Too many requests\<close>, \<open>generateSummaryForChunk\<close> (entered with \<open>retryCount\<close> 0,
  as the orchestrator calls it) fails with the error of the fourth attempt after
  exactly four commands, with waits of 5000, 10000 and 15000 ms before the first,
  second and third retry and nothing else in between.
\<close>

theorem retry_exhaustion:
  assumes "\<forall>tr'. \<exists>e. client tr' (ChunkRequest t chunkIndex totalChunks) = Inl e \<and>
             js_includes (message e) tooManyRequests"
  shows "\<exists>e. generateSummaryForChunk client t chunkIndex totalChunks 0 tr =
           (Inl e, tr @ [Invoke (ChunkRequest t chunkIndex totalChunks), Wait 5000,
                         Invoke (ChunkRequest t chunkIndex totalChunks), Wait 10000,
                         Invoke (ChunkRequest t chunkIndex totalChunks), Wait 15000,
                         Invoke (ChunkRequest t chunkIndex totalChunks)]) \<and>
         client (tr @ [Invoke (ChunkRequest t chunkIndex totalChunks), Wait 5000,
                       Invoke (ChunkRequest t chunkIndex totalChunks), Wait 10000,
                       Invoke (ChunkRequest t chunkIndex totalChunks), Wait 15000])
           (ChunkRequest t chunkIndex totalChunks) = Inl e"
proof -
  let ?c = "ChunkRequest t chunkIndex totalChunks"
  let ?t1 = "tr @ [Invoke ?c, Wait 5000]"
  let ?t2 = "?t1 @ [Invoke ?c, Wait 10000]"
  let ?t3 = "?t2 @ [Invoke ?c, Wait 15000]"
  from assms obtain e0 where e0: "client tr ?c = Inl e0" "js_includes (message e0) tooManyRequests"
    by blast
  from assms obtain e1 where e1: "client ?t1 ?c = Inl e1" "js_includes (message e1) tooManyRequests"
    by blast
  from assms obtain e2 where e2: "client ?t2 ?c = Inl e2" "js_includes (message e2) tooManyRequests"
    by blast
  from assms obtain e3 where e3: "client ?t3 ?c = Inl e3" "js_includes (message e3) tooManyRequests"
    by blast
  have "generateSummaryForChunk client t chunkIndex totalChunks 0 tr =
      generateSummaryForChunk client t chunkIndex totalChunks 1 ?t1"
    using generateSummaryForChunk_retry[of client tr t chunkIndex totalChunks e0 0] e0 by simp
  also have "\<dots> = generateSummaryForChunk client t chunkIndex totalChunks 2 ?t2"
    using generateSummaryForChunk_retry[of client ?t1 t chunkIndex totalChunks e1 1] e1
    by (simp add: numeral_2_eq_2)
  also have "\<dots> = generateSummaryForChunk client t chunkIndex totalChunks 3 ?t3"
    using generateSummaryForChunk_retry[of client ?t2 t chunkIndex totalChunks e2 2] e2 by simp
  also have "\<dots> = (Inl e3, ?t3 @ [Invoke ?c])"
    using generateSummaryForChunk_throw[of client ?t3 t chunkIndex totalChunks e3 3] e3 by simp
  finally show ?thesis using e3(1) by simp
qed

theorem retry_exhaustion_witness:
  "generateSummaryForChunk alwaysThrottled (ascii ''abc'') 0 1 0 [] =
     (Inl throttlingError,
      [Invoke (ChunkRequest (ascii ''abc'') 0 1), Wait 5000,
       Invoke (ChunkRequest (ascii ''abc'') 0 1), Wait 10000,
       Invoke (ChunkRequest (ascii ''abc'') 0 1), Wait 15000,
       Invoke (ChunkRequest (ascii ''abc'') 0 1)])"
proof -
  have "\<forall>tr'. \<exists>e. alwaysThrottled tr' (ChunkRequest (ascii ''abc'') 0 1) = Inl e \<and>
             js_includes (message e) tooManyRequests"
    by (simp add: alwaysThrottled_def throttled_message)
  with retry_exhaustion[of alwaysThrottled "ascii ''abc''" 0 1 "[]"] show ?thesis
    by (simp add: alwaysThrottled_def)
qed

text \<open>
  C8: if the first attempt for a segment fails with an error whose message does not
  contain \<open>Too many requests\<close>, \<open>generateSummaryForChunk\<close> fails with that very
  error value after one command: no retry and no wait.
\<close>

theorem fatal_short_circuit:
  assumes "client tr (ChunkRequest t chunkIndex totalChunks) = Inl error"
    and "\<not> js_includes (message error) tooManyRequests"
  shows "generateSummaryForChunk client t chunkIndex totalChunks 0 tr =
           (Inl error, tr @ [Invoke (ChunkRequest t chunkIndex totalChunks)])"
  using assms by (simp add: generateSummaryForChunk_throw)

theorem fatal_short_circuit_witness:
  "alwaysFatal [] (ChunkRequest (ascii ''abc'') 0 1) = Inl fatalError \<and>
   generateSummaryForChunk alwaysFatal (ascii ''abc'') 0 1 0 [] =
     (Inl fatalError, [Invoke (ChunkRequest (ascii ''abc'') 0 1)])"
proof -
  have a: "alwaysFatal [] (ChunkRequest (ascii ''abc'') 0 1) = Inl fatalError"
    by (simp add: alwaysFatal_def)
  from fatal_short_circuit[of alwaysFatal "[]" "ascii ''abc''" 0 1 fatalError] a fatal_message
  show ?thesis by simp
qed

text \<open>
  C3 asks the final-summary call for the retry contract of the per-segment call.
  \<open>generateFinalSummary\<close> has no \<open>catch\<close>: sent to a service that throttles the
  first command and answers every later one, it fails with the throttling error
  after one command and no wait, where \<open>generateSummaryForChunk\<close> waits 5000 ms,
  sends the command again and succeeds.
\<close>

theorem final_summary_not_retried:
  "generateFinalSummary throttledOnce [ascii ''s0'', ascii ''s1''] [] =
     (Inl throttlingError, [Invoke (FinalRequest (ascii ''s0'' @ finalSeparator @ ascii ''s1''))]) \<and>
   js_includes (message throttlingError) tooManyRequests \<and>
   generateSummaryForChunk throttledOnce (ascii ''abc'') 0 1 0 [] =
     (Inr (ascii ''ok''),
      [Invoke (ChunkRequest (ascii ''abc'') 0 1), Wait 5000,
       Invoke (ChunkRequest (ascii ''abc'') 0 1)])"
proof (intro conjI)
  show "generateFinalSummary throttledOnce [ascii ''s0'', ascii ''s1''] [] =
     (Inl throttlingError, [Invoke (FinalRequest (ascii ''s0'' @ finalSeparator @ ascii ''s1''))])"
    by (simp add: generateFinalSummary_def throttledOnce_def)
  show "js_includes (message throttlingError) tooManyRequests" by (rule throttled_message)
  have "throttledOnce [] (ChunkRequest (ascii ''abc'') 0 1) = Inl throttlingError"
    by (simp add: throttledOnce_def)
  with generateSummaryForChunk_retry[of throttledOnce "[]" "ascii ''abc''" 0 1 throttlingError 0]
    throttled_message
  have "generateSummaryForChunk throttledOnce (ascii ''abc'') 0 1 0 [] =
      generateSummaryForChunk throttledOnce (ascii ''abc'') 0 1 1
        [Invoke (ChunkRequest (ascii ''abc'') 0 1), Wait 5000]" by simp
  also have "\<dots> = (Inr (ascii ''ok''),
      [Invoke (ChunkRequest (ascii ''abc'') 0 1), Wait 5000] @ [Invoke (ChunkRequest (ascii ''abc'') 0 1)])"
    by (rule generateSummaryForChunk_success) (simp add: throttledOnce_def)
  finally show "generateSummaryForChunk throttledOnce (ascii ''abc'') 0 1 0 [] =
     (Inr (ascii ''ok''),
      [Invoke (ChunkRequest (ascii ''abc'') 0 1), Wait 5000,
       Invoke (ChunkRequest (ascii ''abc'') 0 1)])" by simp
qed

section \<open>Properties of the orchestrator\<close>

lemma generateSummaryForChunk_trace:
  "generateSummaryForChunk client t i n r tr = (res, tr') \<Longrightarrow>
   \<exists>new. tr' = tr @ new \<and> set new \<subseteq> insert (Invoke (ChunkRequest t i n)) (range Wait)"
proof (induction client t i n r tr rule: generateSummaryForChunk.induct)
  case (1 client t i n r tr)
  show ?case
  proof (cases "client tr (ChunkRequest t i n)")
    case (Inr summary)
    with "1.prems" have "tr' = tr @ [Invoke (ChunkRequest t i n)]"
      by (simp add: generateSummaryForChunk_success)
    then show ?thesis by (intro exI[of _ "[Invoke (ChunkRequest t i n)]"]) simp
  next
    case (Inl e)
    show ?thesis
    proof (cases "js_includes (message e) tooManyRequests \<and> r < 3")
      case False
      with Inl "1.prems" have "tr' = tr @ [Invoke (ChunkRequest t i n)]"
        using generateSummaryForChunk_throw[of client tr t i n e r] by simp
      then show ?thesis by (intro exI[of _ "[Invoke (ChunkRequest t i n)]"]) simp
    next
      case True
      with Inl "1.prems" have "generateSummaryForChunk client t i n (r + 1)
          (wait (5000 * (r + 1)) (tr @ [Invoke (ChunkRequest t i n)])) = (res, tr')"
        by (simp add: generateSummaryForChunk_retry wait_def)
      from "1.IH"[OF refl Inl True this] obtain new where
        "tr' = wait (5000 * (r + 1)) (tr @ [Invoke (ChunkRequest t i n)]) @ new"
        "set new \<subseteq> insert (Invoke (ChunkRequest t i n)) (range Wait)" by blast
      then show ?thesis
        by (intro exI[of _ "[Invoke (ChunkRequest t i n), Wait (5000 * (r + 1))] @ new"])
           (auto simp: wait_def)
    qed
  qed
qed

lemma processLoop_done: "\<not> i < length chunks \<Longrightarrow> processLoop client chunks i sums tr = (Inr sums, tr)"
  by (subst processLoop.simps) simp

lemma processLoop_abort:
  "i < length chunks \<Longrightarrow>
   generateSummaryForChunk client (chunks ! i) i (length chunks) 0 tr = (Inl e, tr1) \<Longrightarrow>
   processLoop client chunks i sums tr = (Inl e, tr1)"
  by (subst processLoop.simps) simp

lemma processLoop_next:
  "i < length chunks \<Longrightarrow>
   generateSummaryForChunk client (chunks ! i) i (length chunks) 0 tr = (Inr summary, tr1) \<Longrightarrow>
   processLoop client chunks i sums tr =
     processLoop client chunks (i + 1) (sums @ [summary])
       (if i + 1 < length chunks then tr1 @ [Wait 3000] else tr1)"
  by (subst processLoop.simps) (auto simp: wait_def)

lemma processLoop_failure:
  "processLoop client chunks i sums tr = (Inl e, tr') \<Longrightarrow>
   \<exists>k tr_k new. i \<le> k \<and> k < length chunks \<and>
     generateSummaryForChunk client (chunks ! k) k (length chunks) 0 tr_k = (Inl e, tr') \<and>
     tr' = tr @ new \<and> (\<forall>t j n. Invoke (ChunkRequest t j n) \<in> set new \<longrightarrow> j \<le> k)"
proof (induction client chunks i sums tr rule: processLoop.induct)
  case (1 client chunks i sums tr)
  from "1.prems" have i: "i < length chunks"
    by (cases "i < length chunks") (simp_all add: processLoop_done)
  obtain r tr1 where g: "generateSummaryForChunk client (chunks ! i) i (length chunks) 0 tr = (r, tr1)"
    by (cases "generateSummaryForChunk client (chunks ! i) i (length chunks) 0 tr")
  from generateSummaryForChunk_trace[OF g] obtain new1 where
    n1: "tr1 = tr @ new1" "set new1 \<subseteq> insert (Invoke (ChunkRequest (chunks ! i) i (length chunks))) (range Wait)"
    by blast
  show ?case
  proof (cases r)
    case (Inl e1)
    with g i "1.prems" have "e1 = e" "tr1 = tr'" by (simp_all add: processLoop_abort)
    with g Inl n1 i show ?thesis
      by (intro exI[of _ i] exI[of _ tr] exI[of _ new1]) auto
  next
    case (Inr summary)
    let ?tr2 = "if int i < int (length chunks) - 1 then wait 3000 tr1 else tr1"
    from g Inr i "1.prems" have "processLoop client chunks (i + 1) (sums @ [summary]) ?tr2 = (Inl e, tr')"
      by (subst (asm) processLoop.simps) simp
    from "1.IH"[OF i g[symmetric] Inr this]
    obtain k tr_k new where k: "i + 1 \<le> k" "k < length chunks"
      "generateSummaryForChunk client (chunks ! k) k (length chunks) 0 tr_k = (Inl e, tr')"
      "tr' = ?tr2 @ new" "\<forall>t j n. Invoke (ChunkRequest t j n) \<in> set new \<longrightarrow> j \<le> k"
      by blast
    define mid where "mid = (if int i < int (length chunks) - 1 then new1 @ [Wait 3000] else new1)"
    have t2: "?tr2 = tr @ mid" using n1 by (simp add: mid_def wait_def)
    have "\<forall>t j n. Invoke (ChunkRequest t j n) \<in> set (mid @ new) \<longrightarrow> j \<le> k"
      using n1(2) k(1,5) by (auto simp: mid_def split: if_splits)
    with k t2 show ?thesis
      by (intro exI[of _ k] exI[of _ tr_k] exI[of _ "mid @ new"]) auto
  qed
qed

text \<open>
  C6: for every sequence of segments, if the summarization of segment \<open>i\<close> fails
  when the loop reaches it (with whatever has been collected so far), the
  orchestrator returns that error and the trace of that failing call: nothing is
  done after it and the summaries collected so far are not returned.  And whenever
  \<open>processChunksSequentially\<close> fails, the error is the failure of some segment
  \<open>k\<close>, the final trace is the trace at that failure, and no command for a segment
  with an index above \<open>k\<close> has been sent.
\<close>

theorem abort_propagation:
  "(i < length chunks \<and>
    generateSummaryForChunk client (chunks ! i) i (length chunks) 0 tr = (Inl error, tr1)
      \<longrightarrow> processLoop client chunks i summaries tr = (Inl error, tr1)) \<and>
   (processChunksSequentially client chunks tr0 = (Inl error', tr')
      \<longrightarrow> (\<exists>k tr_k new. k < length chunks \<and>
             generateSummaryForChunk client (chunks ! k) k (length chunks) 0 tr_k = (Inl error', tr') \<and>
             tr' = tr0 @ new \<and> (\<forall>t j n. Invoke (ChunkRequest t j n) \<in> set new \<longrightarrow> j \<le> k)))"
proof (intro conjI impI)
  assume "i < length chunks \<and>
    generateSummaryForChunk client (chunks ! i) i (length chunks) 0 tr = (Inl error, tr1)"
  then show "processLoop client chunks i summaries tr = (Inl error, tr1)"
    by (simp add: processLoop_abort)
next
  assume "processChunksSequentially client chunks tr0 = (Inl error', tr')"
  then have "processLoop client chunks 0 [] tr0 = (Inl error', tr')"
    by (simp add: processChunksSequentially_def)
  from processLoop_failure[OF this]
  show "\<exists>k tr_k new. k < length chunks \<and>
             generateSummaryForChunk client (chunks ! k) k (length chunks) 0 tr_k = (Inl error', tr') \<and>
             tr' = tr0 @ new \<and> (\<forall>t j n. Invoke (ChunkRequest t j n) \<in> set new \<longrightarrow> j \<le> k)"
    by blast
qed

theorem abort_propagation_witness:
  "generateSummaryForChunk failsOnSecond (ascii ''b'') 1 3 0
       [Invoke (ChunkRequest (ascii ''a'') 0 3), Wait 3000] =
     (Inl fatalError,
      [Invoke (ChunkRequest (ascii ''a'') 0 3), Wait 3000, Invoke (ChunkRequest (ascii ''b'') 1 3)]) \<and>
   processChunksSequentially failsOnSecond [ascii ''a'', ascii ''b'', ascii ''c''] [] =
     (Inl fatalError,
      [Invoke (ChunkRequest (ascii ''a'') 0 3), Wait 3000, Invoke (ChunkRequest (ascii ''b'') 1 3)]) \<and>
   (\<exists>k tr_k new. k < 3 \<and>
      generateSummaryForChunk failsOnSecond ([ascii ''a'', ascii ''b'', ascii ''c''] ! k) k 3 0 tr_k =
        (Inl fatalError,
         [Invoke (ChunkRequest (ascii ''a'') 0 3), Wait 3000,
          Invoke (ChunkRequest (ascii ''b'') 1 3)]) \<and>
      [Invoke (ChunkRequest (ascii ''a'') 0 3), Wait 3000, Invoke (ChunkRequest (ascii ''b'') 1 3)] =
        [] @ new \<and>
      (\<forall>t j n. Invoke (ChunkRequest t j n) \<in> set new \<longrightarrow> j \<le> k))"
proof -
  let ?chunks = "[ascii ''a'', ascii ''b'', ascii ''c'']"
  let ?tr = "[Invoke (ChunkRequest (ascii ''a'') 0 3), Wait 3000]"
  let ?tr1 = "[Invoke (ChunkRequest (ascii ''a'') 0 3), Wait 3000, Invoke (ChunkRequest (ascii ''b'') 1 3)]"
  have l3: "length ?chunks = 3" by simp
  have n0: "?chunks ! 0 = ascii ''a''" by simp
  have n1: "?chunks ! 1 = ascii ''b''" by simp
  have g1: "generateSummaryForChunk failsOnSecond (ascii ''b'') 1 3 0 ?tr = (Inl fatalError, ?tr1)"
    using generateSummaryForChunk_throw[of failsOnSecond ?tr "ascii ''b''" 1 3 fatalError 0]
      fatal_message
    by (simp add: failsOnSecond_def)
  have g0: "generateSummaryForChunk failsOnSecond (ascii ''a'') 0 3 0 [] =
      (Inr (ascii ''ok''), [Invoke (ChunkRequest (ascii ''a'') 0 3)])"
    using generateSummaryForChunk_success[of failsOnSecond "[]" "ascii ''a''" 0 3 "ascii ''ok''" 0]
    by (simp add: failsOnSecond_def)
  have p1: "processLoop failsOnSecond ?chunks 1 ([] @ [ascii ''ok'']) ?tr = (Inl fatalError, ?tr1)"
    using abort_propagation[of 1 ?chunks failsOnSecond ?tr fatalError ?tr1 "[] @ [ascii ''ok'']",
        unfolded l3 n1] g1
    by simp
  have "processChunksSequentially failsOnSecond ?chunks [] =
      processLoop failsOnSecond ?chunks 1 ([] @ [ascii ''ok'']) ?tr"
    unfolding processChunksSequentially_def
    using processLoop_next[of 0 ?chunks failsOnSecond "[]" "ascii ''ok''"
        "[Invoke (ChunkRequest (ascii ''a'') 0 3)]" "[]", unfolded l3 n0] g0
    by simp
  with p1 have p: "processChunksSequentially failsOnSecond ?chunks [] = (Inl fatalError, ?tr1)" by simp
  from abort_propagation[of _ ?chunks failsOnSecond _ _ _ _ "[]" fatalError ?tr1, unfolded l3] p
  have "\<exists>k tr_k new. k < 3 \<and>
      generateSummaryForChunk failsOnSecond (?chunks ! k) k 3 0 tr_k = (Inl fatalError, ?tr1) \<and>
      ?tr1 = [] @ new \<and> (\<forall>t j n. Invoke (ChunkRequest t j n) \<in> set new \<longrightarrow> j \<le> k)"
    by blast
  with g1 p show ?thesis by blast
qed

section \<open>Properties of the pipeline driver\<close>

lemma splitTextIntoChunks_empty: "splitTextIntoChunks [] chunkSize = Some []"
  unfolding splitTextIntoChunks_def by (subst splitLoop.simps) simp

lemma splitTextIntoChunks_single:
  assumes "t \<noteq> []" "int (length t) \<le> chunkSize"
  shows "splitTextIntoChunks t chunkSize = Some [t]"
proof -
  have e: "chunkEnd t chunkSize 0 = chunkSize" using assms(2) chunkEnd_past_end[of t 0 chunkSize] by simp
  have s: "js_slice t 0 chunkSize = t" using assms(2) by (simp add: js_slice_nonneg)
  have "splitLoop t chunkSize 0 [] = splitLoop t chunkSize chunkSize [t]"
    using assms(1) by (subst splitLoop.simps) (simp add: e s)
  also have "\<dots> = Some [t]" using assms(2) by (subst splitLoop.simps) simp
  finally show ?thesis by (simp add: splitTextIntoChunks_def)
qed

lemma splitTextIntoChunks_example:
  assumes len: "length t = 80150" and dot: "t ! 80070 = period"
    and nodot: "\<forall>j. 79900 \<le> j \<and> j < 80070 \<longrightarrow> t ! j \<noteq> period"
  shows "splitTextIntoChunks t defaultChunkSize = Some [js_slice t 0 80071, js_slice t 80071 80150]"
proof -
  have e0: "chunkEnd t 80000 0 = int 80070 + 1"
    by (rule chunkEnd_period) (use assms in auto)
  have e1: "chunkEnd t 80000 80071 = 80071 + 80000"
    by (rule chunkEnd_past_end) (simp add: len)
  have s1: "js_slice t 80071 160071 = js_slice t 80071 80150"
    by (simp add: js_slice_nonneg len)
  have "splitLoop t 80000 0 [] = splitLoop t 80000 80071 [js_slice t 0 80071]"
    by (subst splitLoop.simps) (simp add: e0 len)
  also have "\<dots> = splitLoop t 80000 (80071 + 80000) [js_slice t 0 80071, js_slice t 80071 80150]"
    by (subst splitLoop.simps) (simp add: e1 len s1)
  also have "\<dots> = Some [js_slice t 0 80071, js_slice t 80071 80150]"
    by (subst splitLoop.simps) (simp add: len)
  finally show ?thesis by (simp add: splitTextIntoChunks_def defaultChunkSize_def)
qed

lemma stored_append: "stored (a @ b) = stored a @ stored b"
  by (induction a rule: stored.induct) simp_all

lemma stored_no_put: "set new \<subseteq> insert (Invoke c) (range Wait) \<Longrightarrow> stored new = []"
  by (induction new rule: stored.induct) auto

lemma stored_generateSummaryForChunk:
  "generateSummaryForChunk client t i n r tr = (res, tr') \<Longrightarrow> stored tr' = stored tr"
  using generateSummaryForChunk_trace[of client t i n r tr res tr'] stored_no_put
  by (auto simp: stored_append)

lemma stored_processLoop:
  "processLoop client chunks i sums tr = (res, tr') \<Longrightarrow> stored tr' = stored tr"
proof (induction client chunks i sums tr rule: processLoop.induct)
  case (1 client chunks i sums tr)
  show ?case
  proof (cases "i < length chunks")
    case False
    with "1.prems" show ?thesis by (simp add: processLoop_done)
  next
    case True
    obtain r tr1 where g: "generateSummaryForChunk client (chunks ! i) i (length chunks) 0 tr = (r, tr1)"
      by (cases "generateSummaryForChunk client (chunks ! i) i (length chunks) 0 tr")
    note st = stored_generateSummaryForChunk[OF g]
    show ?thesis
    proof (cases r)
      case (Inl e)
      with g True "1.prems" st show ?thesis by (simp add: processLoop_abort)
    next
      case (Inr summary)
      let ?tr2 = "if int i < int (length chunks) - 1 then wait 3000 tr1 else tr1"
      from g Inr True "1.prems"
      have "processLoop client chunks (i + 1) (sums @ [summary]) ?tr2 = (res, tr')"
        by (subst (asm) processLoop.simps) simp
      from "1.IH"[OF True g[symmetric] Inr this] st show ?thesis
        by (simp add: wait_def stored_append split: if_splits)
    qed
  qed
qed

lemma stored_processChunksSequentially:
  "processChunksSequentially client chunks tr = (res, tr') \<Longrightarrow> stored tr' = stored tr"
  unfolding processChunksSequentially_def by (rule stored_processLoop)

lemma stored_generateFinalSummary:
  "generateFinalSummary client sums tr = (res, tr') \<Longrightarrow> stored tr' = stored tr"
  by (auto simp: generateFinalSummary_def Let_def stored_append)

lemma defaultChunkSize_total: "\<exists>chunks. splitTextIntoChunks t defaultChunkSize = Some chunks"
  using splitTextIntoChunks_total[of defaultChunkSize t] by (auto simp: defaultChunkSize_def)

lemma summary_0: "ascii ''summary-'' @ decimal 0 = ascii ''summary-0''"
  by (simp add: ascii_def decimal.simps)

lemma summary_1: "ascii ''summary-'' @ decimal 1 = ascii ''summary-1''"
  by (simp add: ascii_def decimal.simps)

lemma processChunksSequentially_two:
  "processChunksSequentially summaryStub [a, b] tr =
     (Inr [ascii ''summary-0'', ascii ''summary-1''],
      tr @ [Invoke (ChunkRequest a 0 2), Wait 3000, Invoke (ChunkRequest b 1 2)])"
proof -
  let ?t1 = "tr @ [Invoke (ChunkRequest a 0 2)]"
  let ?t2 = "?t1 @ [Wait 3000]"
  have l: "length [a, b] = 2" by simp
  have n0: "[a, b] ! 0 = a" by simp
  have n1: "[a, b] ! 1 = b" by simp
  have g0: "generateSummaryForChunk summaryStub a 0 2 0 tr = (Inr (ascii ''summary-0''), ?t1)"
    using generateSummaryForChunk_success[of summaryStub tr a 0 2 "ascii ''summary-0''" 0]
    by (simp add: summaryStub_def summary_0)
  have g1: "generateSummaryForChunk summaryStub b 1 2 0 ?t2 =
      (Inr (ascii ''summary-1''), ?t2 @ [Invoke (ChunkRequest b 1 2)])"
    using generateSummaryForChunk_success[of summaryStub ?t2 b 1 2 "ascii ''summary-1''" 0]
      summary_1
    by (simp add: summaryStub_def)
  have "processLoop summaryStub [a, b] 0 [] tr =
      processLoop summaryStub [a, b] (0 + 1) ([] @ [ascii ''summary-0'']) ?t2"
    using processLoop_next[of 0 "[a, b]" summaryStub tr "ascii ''summary-0''" ?t1 "[]", unfolded l n0] g0
    by simp
  also have "\<dots> = processLoop summaryStub [a, b] (1 + 1) ([ascii ''summary-0''] @ [ascii ''summary-1''])
      (?t2 @ [Invoke (ChunkRequest b 1 2)])"
    using processLoop_next[of 1 "[a, b]" summaryStub ?t2 "ascii ''summary-1''"
        "?t2 @ [Invoke (ChunkRequest b 1 2)]" "[ascii ''summary-0'']", unfolded l n1] g1
    by simp
  also have "\<dots> = (Inr ([ascii ''summary-0''] @ [ascii ''summary-1'']), ?t2 @ [Invoke (ChunkRequest b 1 2)])"
    by (rule processLoop_done) simp
  finally show ?thesis by (simp add: processChunksSequentially_def)
qed

lemma processChunksSequentially_none:
  "processChunksSequentially client [] tr = (Inr [], tr)"
  by (simp add: processChunksSequentially_def processLoop_done)

lemma processChunksSequentially_one:
  "processChunksSequentially summaryStub [a] tr =
     (Inr [ascii ''summary-0''], tr @ [Invoke (ChunkRequest a 0 1)])"
proof -
  have l: "length [a] = 1" by simp
  have n0: "[a] ! 0 = a" by simp
  have g0: "generateSummaryForChunk summaryStub a 0 1 0 tr =
      (Inr (ascii ''summary-0''), tr @ [Invoke (ChunkRequest a 0 1)])"
    using generateSummaryForChunk_success[of summaryStub tr a 0 1 "ascii ''summary-0''" 0]
    by (simp add: summaryStub_def summary_0)
  have "processLoop summaryStub [a] 0 [] tr =
      processLoop summaryStub [a] (0 + 1) ([] @ [ascii ''summary-0'']) (tr @ [Invoke (ChunkRequest a 0 1)])"
    using processLoop_next[of 0 "[a]" summaryStub tr "ascii ''summary-0''"
        "tr @ [Invoke (ChunkRequest a 0 1)]" "[]", unfolded l n0] g0
    by simp
  also have "\<dots> = (Inr ([] @ [ascii ''summary-0'']), tr @ [Invoke (ChunkRequest a 0 1)])"
    by (rule processLoop_done) simp
  finally show ?thesis by (simp add: processChunksSequentially_def)
qed

lemma example_key:
  "js_replace (js_replace (plusToSpace (ascii ''pdfs/my+book.pdf'')) (ascii ''pdfs/'') (ascii ''summaries/''))
     (ascii ''.pdf'') (ascii ''.txt'') = ascii ''summaries/my book.txt''"
  "js_replace (js_replace (plusToSpace (ascii ''pdfs/my+book.pdf'')) (ascii ''pdfs/'')
       (ascii ''summaries/detailed_''))
     (ascii ''.pdf'') (ascii ''.txt'') = ascii ''summaries/detailed_my book.txt''"
  by (simp_all add: ascii_def plusToSpace_def)

subsection \<open>The end-to-end example\<close>

text \<open>
  C7: for a document of exactly 80150 characters with a period at offset 80070 and
  none at the offsets from 79900 up to it, the chunker with the default chunk size
  returns exactly two segments, the substrings \<open>[0, 80071)\<close> and
  \<open>[80071, 80150)\<close>; and a run of the handler on such a document, with the stub
  client that answers \<open>summary-N\<close> for segment \<open>N\<close> and with writes that succeed,
  stores as detailed summary the two summaries joined in index order by the
  delimiter of the source, \<open>detailedSeparator\<close>.
\<close>

theorem end_to_end_example:
  assumes "length t = 80150" and "t ! 80070 = period"
    and "\<forall>j. 79900 \<le> j \<and> j < 80070 \<longrightarrow> t ! j \<noteq> period"
    and "decodeURIComponent e (plusToSpace rawKey) = Inr key"
    and "getObject e bucket key = Inr pdfBuffer"
    and "pdfParse e pdfBuffer = Inr t"
    and "bedrockClient e = summaryStub"
    and "\<forall>tr b k v. putObject e tr b k v = Inr ()"
  shows "splitTextIntoChunks t defaultChunkSize =
           Some [js_slice t 0 80071, js_slice t 80071 80150] \<and>
         handler e (S3Put bucket rawKey) [] =
           Some (\<lparr>statusCode = 200,
                  body = Processed (ascii ''PDF successfully processed and summaries created'')
                    (js_replace (js_replace key (ascii ''pdfs/'') (ascii ''summaries/''))
                       (ascii ''.pdf'') (ascii ''.txt''))
                    (js_replace (js_replace key (ascii ''pdfs/'') (ascii ''summaries/detailed_''))
                       (ascii ''.pdf'') (ascii ''.txt''))\<rparr>,
                 [Invoke (ChunkRequest (js_slice t 0 80071) 0 2), Wait 3000,
                  Invoke (ChunkRequest (js_slice t 80071 80150) 1 2), Wait 3000,
                  Invoke (FinalRequest (ascii ''summary-0'' @ finalSeparator @ ascii ''summary-1'')),
                  Put bucket
                    (js_replace (js_replace key (ascii ''pdfs/'') (ascii ''summaries/''))
                       (ascii ''.pdf'') (ascii ''.txt''))
                    (ascii ''final-summary''),
                  Put bucket
                    (js_replace (js_replace key (ascii ''pdfs/'') (ascii ''summaries/detailed_''))
                       (ascii ''.pdf'') (ascii ''.txt''))
                    (ascii ''summary-0'' @ detailedSeparator @ ascii ''summary-1'')])"
proof
  show split: "splitTextIntoChunks t defaultChunkSize =
      Some [js_slice t 0 80071, js_slice t 80071 80150]"
    using assms(1-3) by (rule splitTextIntoChunks_example)
  have fin: "summaryStub tr (FinalRequest p) = Inr (ascii ''final-summary'')" for tr p
    by (simp add: summaryStub_def)
  show "handler e (S3Put bucket rawKey) [] = Some (\<lparr>statusCode = 200,
                  body = Processed (ascii ''PDF successfully processed and summaries created'')
                    (js_replace (js_replace key (ascii ''pdfs/'') (ascii ''summaries/''))
                       (ascii ''.pdf'') (ascii ''.txt''))
                    (js_replace (js_replace key (ascii ''pdfs/'') (ascii ''summaries/detailed_''))
                       (ascii ''.pdf'') (ascii ''.txt''))\<rparr>,
                 [Invoke (ChunkRequest (js_slice t 0 80071) 0 2), Wait 3000,
                  Invoke (ChunkRequest (js_slice t 80071 80150) 1 2), Wait 3000,
                  Invoke (FinalRequest (ascii ''summary-0'' @ finalSeparator @ ascii ''summary-1'')),
                  Put bucket
                    (js_replace (js_replace key (ascii ''pdfs/'') (ascii ''summaries/''))
                       (ascii ''.pdf'') (ascii ''.txt''))
                    (ascii ''final-summary''),
                  Put bucket
                    (js_replace (js_replace key (ascii ''pdfs/'') (ascii ''summaries/detailed_''))
                       (ascii ''.pdf'') (ascii ''.txt''))
                    (ascii ''summary-0'' @ detailedSeparator @ ascii ''summary-1'')])"
    unfolding handler_def
    by (simp add: assms(4-8) split processChunksSequentially_two generateFinalSummary_def
        wait_def fin Let_def)
qed

theorem end_to_end_example_witness:
  "length exampleText = 80150 \<and> exampleText ! 80070 = period \<and>
   period \<notin> set (take 170 (drop 79900 exampleText)) \<and>
   splitTextIntoChunks exampleText defaultChunkSize =
     Some [js_slice exampleText 0 80071, js_slice exampleText 80071 80150] \<and>
   handler (stubEnv exampleText summaryStub) (S3Put (ascii ''books'') (ascii ''pdfs/my+book.pdf'')) [] =
     Some (\<lparr>statusCode = 200,
            body = Processed (ascii ''PDF successfully processed and summaries created'')
              (ascii ''summaries/my book.txt'') (ascii ''summaries/detailed_my book.txt'')\<rparr>,
           [Invoke (ChunkRequest (js_slice exampleText 0 80071) 0 2), Wait 3000,
            Invoke (ChunkRequest (js_slice exampleText 80071 80150) 1 2), Wait 3000,
            Invoke (FinalRequest (ascii ''summary-0'' @ finalSeparator @ ascii ''summary-1'')),
            Put (ascii ''books'') (ascii ''summaries/my book.txt'') (ascii ''final-summary''),
            Put (ascii ''books'') (ascii ''summaries/detailed_my book.txt'')
              (ascii ''summary-0'' @ detailedSeparator @ ascii ''summary-1'')])"
proof -
  have 1: "length exampleText = 80150" by (simp add: exampleText_def)
  have 2: "exampleText ! 80070 = period" by (simp add: exampleText_def nth_append)
  have 3: "\<forall>j. 79900 \<le> j \<and> j < 80070 \<longrightarrow> exampleText ! j \<noteq> period"
    by (simp add: exampleText_def nth_append period_def)
  have p3: "period \<notin> set (take 170 (drop 79900 exampleText))"
    by (simp add: exampleText_def period_def)
  let ?e = "stubEnv exampleText summaryStub"
  have 4: "decodeURIComponent ?e (plusToSpace (ascii ''pdfs/my+book.pdf'')) =
      Inr (plusToSpace (ascii ''pdfs/my+book.pdf''))" by (simp add: stubEnv_def)
  have 5: "getObject ?e (ascii ''books'') (plusToSpace (ascii ''pdfs/my+book.pdf'')) = Inr []"
    by (simp add: stubEnv_def)
  have 6: "pdfParse ?e [] = Inr exampleText" by (simp add: stubEnv_def)
  have 7: "bedrockClient ?e = summaryStub" by (simp add: stubEnv_def)
  have 8: "\<forall>tr b k v. putObject ?e tr b k v = Inr ()" by (simp add: stubEnv_def)
  from end_to_end_example[OF 1 2 3 4 5 6 7 8] 1 2 p3 show ?thesis
    by (simp only: example_key) simp
qed

subsection \<open>A document with no text\<close>

text \<open>
  C5, as stated: it fails.  On a document whose extracted text is empty the handler
  reports success: it makes the final-summary call with no chunk summaries, stores
  the answer as the final summary and stores an empty detailed summary.
\<close>

theorem empty_document_counterexample:
  "handler (stubEnv [] summaryStub) (S3Put (ascii ''books'') (ascii ''pdfs/my+book.pdf'')) [] =
     Some (\<lparr>statusCode = 200,
            body = Processed (ascii ''PDF successfully processed and summaries created'')
              (ascii ''summaries/my book.txt'') (ascii ''summaries/detailed_my book.txt'')\<rparr>,
           [Wait 3000, Invoke (FinalRequest []),
            Put (ascii ''books'') (ascii ''summaries/my book.txt'') (ascii ''final-summary''),
            Put (ascii ''books'') (ascii ''summaries/detailed_my book.txt'') []])"
  unfolding handler_def
  by (simp add: stubEnv_def splitTextIntoChunks_empty processChunksSequentially_none
      generateFinalSummary_def wait_def summaryStub_def Let_def example_key)

text \<open>
  C5, amended: when the extracted text is empty the chunker produces zero segments,
  not one empty segment, and no per-segment command is sent; no distinct condition
  is reported.  The handler waits 3000 ms and sends the final-summary command with
  an empty list of summaries, its only inference command; and when that call and
  the two writes succeed it stores the answer as the final summary, stores an empty
  detailed summary and reports success.
\<close>

theorem empty_document:
  assumes "decodeURIComponent e (plusToSpace rawKey) = Inr key"
    and "getObject e bucket key = Inr pdfBuffer"
    and "pdfParse e pdfBuffer = Inr []"
  shows "splitTextIntoChunks [] defaultChunkSize = Some [] \<and>
         (\<exists>resp rest. handler e (S3Put bucket rawKey) tr =
              Some (resp, tr @ [Wait 3000, Invoke (FinalRequest [])] @ rest) \<and>
            (\<forall>command. Invoke command \<notin> set rest)) \<and>
         (bedrockClient e (tr @ [Wait 3000]) (FinalRequest []) = Inr finalSummary \<and>
          (\<forall>tr' b k v. putObject e tr' b k v = Inr ())
            \<longrightarrow> handler e (S3Put bucket rawKey) tr =
                  Some (\<lparr>statusCode = 200,
                         body = Processed (ascii ''PDF successfully processed and summaries created'')
                           (js_replace (js_replace key (ascii ''pdfs/'') (ascii ''summaries/''))
                              (ascii ''.pdf'') (ascii ''.txt''))
                           (js_replace (js_replace key (ascii ''pdfs/'') (ascii ''summaries/detailed_''))
                              (ascii ''.pdf'') (ascii ''.txt''))\<rparr>,
                        tr @ [Wait 3000, Invoke (FinalRequest []),
                              Put bucket
                                (js_replace (js_replace key (ascii ''pdfs/'') (ascii ''summaries/''))
                                   (ascii ''.pdf'') (ascii ''.txt''))
                                finalSummary,
                              Put bucket
                                (js_replace (js_replace key (ascii ''pdfs/'')
                                     (ascii ''summaries/detailed_''))
                                   (ascii ''.pdf'') (ascii ''.txt''))
                                []]))"
proof (intro conjI impI)
  show "splitTextIntoChunks [] defaultChunkSize = Some []" by (rule splitTextIntoChunks_empty)
next
  let ?sk = "js_replace (js_replace key (ascii ''pdfs/'') (ascii ''summaries/''))
      (ascii ''.pdf'') (ascii ''.txt'')"
  let ?dk = "js_replace (js_replace key (ascii ''pdfs/'') (ascii ''summaries/detailed_''))
      (ascii ''.pdf'') (ascii ''.txt'')"
  let ?t2 = "tr @ [Wait 3000, Invoke (FinalRequest [])]"
  show "\<exists>resp rest. handler e (S3Put bucket rawKey) tr =
              Some (resp, tr @ [Wait 3000, Invoke (FinalRequest [])] @ rest) \<and>
            (\<forall>command. Invoke command \<notin> set rest)"
  proof (cases "bedrockClient e (tr @ [Wait 3000]) (FinalRequest [])")
    case (Inl error)
    then have "handler e (S3Put bucket rawKey) tr = failed error (?t2 @ [])"
      unfolding handler_def
      by (simp add: assms splitTextIntoChunks_empty processChunksSequentially_none
          generateFinalSummary_def wait_def Let_def)
    then show ?thesis unfolding failed_def by (intro exI[of _ "[]"] exI conjI) auto
  next
    case (Inr fin)
    show ?thesis
    proof (cases "putObject e ?t2 bucket ?sk fin")
      case (Inl error)
      with Inr have "handler e (S3Put bucket rawKey) tr = failed error (?t2 @ [])"
        unfolding handler_def
        by (simp add: assms splitTextIntoChunks_empty processChunksSequentially_none
            generateFinalSummary_def wait_def Let_def)
      then show ?thesis unfolding failed_def by (intro exI[of _ "[]"] exI conjI) auto
    next
      case p1: (Inr u)
      show ?thesis
      proof (cases "putObject e (?t2 @ [Put bucket ?sk fin]) bucket ?dk []")
        case (Inl error)
        with Inr p1 have "handler e (S3Put bucket rawKey) tr = failed error (?t2 @ [Put bucket ?sk fin])"
          unfolding handler_def
          by (simp add: assms splitTextIntoChunks_empty processChunksSequentially_none
              generateFinalSummary_def wait_def Let_def)
        then show ?thesis unfolding failed_def
          by (intro exI[of _ "[Put bucket ?sk fin]"] exI conjI) auto
      next
        case p2: (Inr u2)
        with Inr p1 have "\<exists>resp. handler e (S3Put bucket rawKey) tr =
            Some (resp, ?t2 @ [Put bucket ?sk fin, Put bucket ?dk []])"
          unfolding handler_def
          by (simp add: assms splitTextIntoChunks_empty processChunksSequentially_none
              generateFinalSummary_def wait_def Let_def)
        then show ?thesis
          by (intro exI[of _ "[Put bucket ?sk fin, Put bucket ?dk []]"] ex_comm[THEN iffD1]) auto
      qed
    qed
  qed
next
  assume "bedrockClient e (tr @ [Wait 3000]) (FinalRequest []) = Inr finalSummary \<and>
          (\<forall>tr' b k v. putObject e tr' b k v = Inr ())"
  then show "handler e (S3Put bucket rawKey) tr =
                  Some (\<lparr>statusCode = 200,
                         body = Processed (ascii ''PDF successfully processed and summaries created'')
                           (js_replace (js_replace key (ascii ''pdfs/'') (ascii ''summaries/''))
                              (ascii ''.pdf'') (ascii ''.txt''))
                           (js_replace (js_replace key (ascii ''pdfs/'') (ascii ''summaries/detailed_''))
                              (ascii ''.pdf'') (ascii ''.txt''))\<rparr>,
                        tr @ [Wait 3000, Invoke (FinalRequest []),
                              Put bucket
                                (js_replace (js_replace key (ascii ''pdfs/'') (ascii ''summaries/''))
                                   (ascii ''.pdf'') (ascii ''.txt''))
                                finalSummary,
                              Put bucket
                                (js_replace (js_replace key (ascii ''pdfs/'')
                                     (ascii ''summaries/detailed_''))
                                   (ascii ''.pdf'') (ascii ''.txt''))
                                []])"
    unfolding handler_def
    by (simp add: assms splitTextIntoChunks_empty processChunksSequentially_none
        generateFinalSummary_def wait_def Let_def)
qed

theorem empty_document_witness:
  "pdfParse (stubEnv [] summaryStub) [] = Inr [] \<and>
   splitTextIntoChunks [] defaultChunkSize = Some [] \<and>
   summaryStub ([] @ [Wait 3000]) (FinalRequest []) = Inr (ascii ''final-summary'') \<and>
   handler (stubEnv [] summaryStub) (S3Put (ascii ''books'') (ascii ''pdfs/empty.pdf'')) [] =
     Some (\<lparr>statusCode = 200,
            body = Processed (ascii ''PDF successfully processed and summaries created'')
              (ascii ''summaries/empty.txt'') (ascii ''summaries/detailed_empty.txt'')\<rparr>,
           [Wait 3000, Invoke (FinalRequest []),
            Put (ascii ''books'') (ascii ''summaries/empty.txt'') (ascii ''final-summary''),
            Put (ascii ''books'') (ascii ''summaries/detailed_empty.txt'') []])"
proof -
  let ?e = "stubEnv [] summaryStub"
  have k1: "js_replace (js_replace (ascii ''pdfs/empty.pdf'') (ascii ''pdfs/'') (ascii ''summaries/''))
     (ascii ''.pdf'') (ascii ''.txt'') = ascii ''summaries/empty.txt''"
    by (simp add: ascii_def)
  have k2: "js_replace (js_replace (ascii ''pdfs/empty.pdf'') (ascii ''pdfs/'')
       (ascii ''summaries/detailed_'')) (ascii ''.pdf'') (ascii ''.txt'') =
     ascii ''summaries/detailed_empty.txt''"
    by (simp add: ascii_def)
  have 1: "decodeURIComponent ?e (plusToSpace (ascii ''pdfs/empty.pdf'')) = Inr (ascii ''pdfs/empty.pdf'')"
    by (simp add: stubEnv_def plusToSpace_def ascii_def)
  have 2: "getObject ?e (ascii ''books'') (ascii ''pdfs/empty.pdf'') = Inr []"
    by (simp add: stubEnv_def)
  have 3: "pdfParse ?e [] = Inr []" by (simp add: stubEnv_def)
  have 4: "bedrockClient ?e ([] @ [Wait 3000]) (FinalRequest []) = Inr (ascii ''final-summary'') \<and>
      (\<forall>tr' b k v. putObject ?e tr' b k v = Inr ())"
    by (simp add: stubEnv_def summaryStub_def)
  have 5: "summaryStub ([] @ [Wait 3000]) (FinalRequest []) = Inr (ascii ''final-summary'')"
    by (simp add: summaryStub_def)
  from empty_document[OF 1 2 3, of "[]" "ascii ''final-summary''"] 4
  have "handler ?e (S3Put (ascii ''books'') (ascii ''pdfs/empty.pdf'')) [] =
     Some (\<lparr>statusCode = 200,
            body = Processed (ascii ''PDF successfully processed and summaries created'')
              (ascii ''summaries/empty.txt'') (ascii ''summaries/detailed_empty.txt'')\<rparr>,
           [Wait 3000, Invoke (FinalRequest []),
            Put (ascii ''books'') (ascii ''summaries/empty.txt'') (ascii ''final-summary''),
            Put (ascii ''books'') (ascii ''summaries/detailed_empty.txt'') []])"
    by (simp only: k1 k2) simp
  with 3 5 splitTextIntoChunks_empty show ?thesis by blast
qed

subsection \<open>Outcomes of a run\<close>

text \<open>
  C9, as stated: it fails.  When S3 rejects the second \<open>PutObject\<close> the run ends in
  the failure response, which carries the fixed text and the message of the error
  and names neither stage nor segment, and the final summary has been stored
  without the detailed summary.
\<close>

theorem partial_artifacts_counterexample:
  "handler (secondPutFails (ascii ''Hello.'') summaryStub)
       (S3Put (ascii ''books'') (ascii ''pdfs/my+book.pdf'')) [] =
     Some (\<lparr>statusCode = 500,
            body = Failure (ascii ''Failed to process PDF'') (ascii ''Access Denied'')\<rparr>,
           [Invoke (ChunkRequest (ascii ''Hello.'') 0 1), Wait 3000,
            Invoke (FinalRequest (ascii ''summary-0'')),
            Put (ascii ''books'') (ascii ''summaries/my book.txt'') (ascii ''final-summary'')])"
proof -
  have s: "splitTextIntoChunks (ascii ''Hello.'') defaultChunkSize = Some [ascii ''Hello.'']"
    by (rule splitTextIntoChunks_single) (simp_all add: ascii_def defaultChunkSize_def)
  show ?thesis
    unfolding handler_def
    by (simp add: secondPutFails_def stubEnv_def s processChunksSequentially_one
        generateFinalSummary_def wait_def summaryStub_def Let_def example_key failed_def
        storageError_def)
qed

lemma handler_returns:
  "\<exists>resp tr'. handler e event tr = Some (resp, tr') \<and>
     ((\<exists>bucket k1 k2 sums tr2 finalSummary.
         resp = \<lparr>statusCode = 200,
                 body = Processed (ascii ''PDF successfully processed and summaries created'') k1 k2\<rparr> \<and>
         bedrockClient e tr2 (FinalRequest (js_join finalSeparator sums)) = Inr finalSummary \<and>
         stored tr' = stored tr @ [(bucket, k1, finalSummary),
                                   (bucket, k2, js_join detailedSeparator sums)]) \<or>
      (\<exists>error :: jserror.
         resp = \<lparr>statusCode = 500,
                 body = Failure (ascii ''Failed to process PDF'') (message error)\<rparr> \<and>
         (stored tr' = stored tr \<or>
          (\<exists>bucket k1 k2 sums tr2 finalSummary.
             bedrockClient e tr2 (FinalRequest (js_join finalSeparator sums)) = Inr finalSummary \<and>
             putObject e tr' bucket k2 (js_join detailedSeparator sums) = Inl error \<and>
             stored tr' = stored tr @ [(bucket, k1, finalSummary)]))))"
proof -
  have F: "?thesis" if "handler e event tr = failed error tr'" "stored tr' = stored tr"
    for error tr'
  proof -
    from that(1) have "handler e event tr =
        Some (\<lparr>statusCode = 500,
               body = Failure (ascii ''Failed to process PDF'') (message error)\<rparr>, tr')"
      by (simp add: failed_def)
    with that(2) show ?thesis by fast
  qed
  show ?thesis
  proof (cases event)
    case (Malformed error)
    then have "handler e event tr = failed error tr" by (simp add: handler_def)
    then show ?thesis by (rule F) simp
  next
    case (S3Put bucket rawKey)
    show ?thesis
    proof (cases "decodeURIComponent e (plusToSpace rawKey)")
      case (Inl error)
      with S3Put have "handler e event tr = failed error tr" by (simp add: handler_def)
      then show ?thesis by (rule F) simp
    next
      case key: (Inr key)
      show ?thesis
      proof (cases "getObject e bucket key")
        case (Inl error)
        with S3Put key have "handler e event tr = failed error tr" by (simp add: handler_def)
        then show ?thesis by (rule F) simp
      next
        case buf: (Inr pdfBuffer)
        show ?thesis
        proof (cases "pdfParse e pdfBuffer")
          case (Inl error)
          with S3Put key buf have "handler e event tr = failed error tr" by (simp add: handler_def)
          then show ?thesis by (rule F) simp
        next
          case parsed: (Inr fullText)
          from defaultChunkSize_total obtain chunks where
            ch: "splitTextIntoChunks fullText defaultChunkSize = Some chunks" by blast
          obtain r1 tr1 where p: "processChunksSequentially (bedrockClient e) chunks tr = (r1, tr1)"
            by (cases "processChunksSequentially (bedrockClient e) chunks tr")
          have st1: "stored tr1 = stored tr" using p by (rule stored_processChunksSequentially)
          note pre = S3Put key buf parsed ch p
          show ?thesis
          proof (cases r1)
            case (Inl error)
            with pre have "handler e event tr = failed error tr1" by (simp add: handler_def)
            then show ?thesis by (rule F) (simp add: st1)
          next
            case sums: (Inr chunkSummaries)
            obtain r2 tr2 where
              g: "generateFinalSummary (bedrockClient e) chunkSummaries (wait 3000 tr1) = (r2, tr2)"
              by (cases "generateFinalSummary (bedrockClient e) chunkSummaries (wait 3000 tr1)")
            have st2: "stored tr2 = stored tr"
              using stored_generateFinalSummary[OF g] st1 by (simp add: wait_def stored_append)
            show ?thesis
            proof (cases r2)
              case (Inl error)
              with pre sums g have "handler e event tr = failed error tr2" by (simp add: handler_def)
              then show ?thesis by (rule F) (simp add: st2)
            next
              case fin: (Inr finalSummary)
              let ?sk = "js_replace (js_replace key (ascii ''pdfs/'') (ascii ''summaries/''))
                  (ascii ''.pdf'') (ascii ''.txt'')"
              let ?dk = "js_replace (js_replace key (ascii ''pdfs/'') (ascii ''summaries/detailed_''))
                  (ascii ''.pdf'') (ascii ''.txt'')"
              let ?tr3 = "tr2 @ [Put bucket ?sk finalSummary]"
              let ?ds = "js_join detailedSeparator chunkSummaries"
              from g fin have answer: "bedrockClient e (wait 3000 tr1)
                  (FinalRequest (js_join finalSeparator chunkSummaries)) = Inr finalSummary"
                by (simp add: generateFinalSummary_def Let_def)
              show ?thesis
              proof (cases "putObject e tr2 bucket ?sk finalSummary")
                case (Inl error)
                with pre sums g fin have "handler e event tr = failed error tr2"
                  by (simp add: handler_def Let_def)
                then show ?thesis by (rule F) (simp add: st2)
              next
                case put1: (Inr u)
                show ?thesis
                proof (cases "putObject e ?tr3 bucket ?dk ?ds")
                  case (Inl error)
                  with pre sums g fin put1 have "handler e event tr =
                      Some (\<lparr>statusCode = 500,
                        body = Failure (ascii ''Failed to process PDF'') (message error)\<rparr>, ?tr3)"
                    by (simp add: handler_def Let_def failed_def)
                  moreover have "stored ?tr3 = stored tr @ [(bucket, ?sk, finalSummary)]"
                    by (simp add: st2 stored_append)
                  moreover note Inl answer
                  ultimately show ?thesis by blast
                next
                  case put2: (Inr u2)
                  with pre sums g fin put1 have "handler e event tr =
                      Some (\<lparr>statusCode = 200,
                        body = Processed (ascii ''PDF successfully processed and summaries created'')
                          ?sk ?dk\<rparr>, ?tr3 @ [Put bucket ?dk ?ds])"
                    by (simp add: handler_def Let_def)
                  moreover have "stored (?tr3 @ [Put bucket ?dk ?ds]) =
                      stored tr @ [(bucket, ?sk, finalSummary), (bucket, ?dk, ?ds)]"
                    by (simp add: st2 stored_append)
                  moreover note answer
                  ultimately show ?thesis by blast
                qed
              qed
            qed
          qed
        qed
      qed
    qed
  qed
qed

lemma processChunksSequentially_fatal:
  "processChunksSequentially alwaysFatal [a] tr = (Inl fatalError, tr @ [Invoke (ChunkRequest a 0 1)])"
proof -
  have "generateSummaryForChunk alwaysFatal a 0 1 0 tr =
      (Inl fatalError, tr @ [Invoke (ChunkRequest a 0 1)])"
    using generateSummaryForChunk_throw[of alwaysFatal tr a 0 1 fatalError 0] fatal_message
    by (simp add: alwaysFatal_def)
  then show ?thesis
    unfolding processChunksSequentially_def
    using processLoop_abort[of 0 "[a]" alwaysFatal tr fatalError "tr @ [Invoke (ChunkRequest a 0 1)]" "[]"]
    by simp
qed

lemma witness_key:
  "plusToSpace (ascii ''pdfs/x.pdf'') = ascii ''pdfs/x.pdf''"
  "js_replace (js_replace (ascii ''pdfs/x.pdf'') (ascii ''pdfs/'') (ascii ''summaries/''))
     (ascii ''.pdf'') (ascii ''.txt'') = ascii ''summaries/x.txt''"
  "js_replace (js_replace (ascii ''pdfs/x.pdf'') (ascii ''pdfs/'') (ascii ''summaries/detailed_''))
     (ascii ''.pdf'') (ascii ''.txt'') = ascii ''summaries/detailed_x.txt''"
  by (simp_all add: ascii_def plusToSpace_def)

text \<open>
  C9, amended: every run of the handler ends in a response, and the run fails at
  the first stage that throws: reading the event, decoding the key, fetching the
  object, extracting the text, summarizing the chunks, the final-summary call, the
  first write, the second write.  A failed run has status 500 and reports the fixed
  text \<open>Failed to process PDF\<close> with the message of the error of that stage, and
  nothing about the stage or the segment.  When the failing stage is any up to and
  including the first write, nothing has been stored; when it is the second write,
  the final summary alone has been stored.  When no stage fails the run has status
  200 and has stored the final summary and then the detailed summary (the chunk
  summaries joined by the delimiter) in the event's bucket, under the keys it
  reports.
\<close>

theorem handler_outcomes:
  "(\<exists>resp tr'. handler e event tr = Some (resp, tr') \<and>
     ((\<exists>bucket k1 k2 sums tr2 finalSummary.
         resp = \<lparr>statusCode = 200,
                 body = Processed (ascii ''PDF successfully processed and summaries created'') k1 k2\<rparr> \<and>
         bedrockClient e tr2 (FinalRequest (js_join finalSeparator sums)) = Inr finalSummary \<and>
         stored tr' = stored tr @ [(bucket, k1, finalSummary),
                                   (bucket, k2, js_join detailedSeparator sums)]) \<or>
      (\<exists>error :: jserror.
         resp = \<lparr>statusCode = 500,
                 body = Failure (ascii ''Failed to process PDF'') (message error)\<rparr> \<and>
         (stored tr' = stored tr \<or>
          (\<exists>bucket k1 k2 sums tr2 finalSummary.
             bedrockClient e tr2 (FinalRequest (js_join finalSeparator sums)) = Inr finalSummary \<and>
             putObject e tr' bucket k2 (js_join detailedSeparator sums) = Inl error \<and>
             stored tr' = stored tr @ [(bucket, k1, finalSummary)]))))) \<and>
   (let failure = (\<lambda>error :: jserror.
          \<lparr>statusCode = 500,
           body = Failure (ascii ''Failed to process PDF'') (message error)\<rparr>)
    in
     (event = Malformed error \<longrightarrow> handler e event tr = Some (failure error, tr)) \<and>
     (event = S3Put bucket rawKey \<longrightarrow>
       (decodeURIComponent e (plusToSpace rawKey) = Inl error
          \<longrightarrow> handler e event tr = Some (failure error, tr)) \<and>
       (decodeURIComponent e (plusToSpace rawKey) = Inr key \<longrightarrow>
         (getObject e bucket key = Inl error
            \<longrightarrow> handler e event tr = Some (failure error, tr)) \<and>
         (getObject e bucket key = Inr pdfBuffer \<longrightarrow>
           (pdfParse e pdfBuffer = Inl error
              \<longrightarrow> handler e event tr = Some (failure error, tr)) \<and>
           (pdfParse e pdfBuffer = Inr fullText \<longrightarrow>
             (\<exists>cs. splitTextIntoChunks fullText defaultChunkSize = Some cs) \<and>
             (splitTextIntoChunks fullText defaultChunkSize = Some chunks \<longrightarrow>
               (processChunksSequentially (bedrockClient e) chunks tr = (Inl error, tr1)
                  \<longrightarrow> handler e event tr = Some (failure error, tr1) \<and> stored tr1 = stored tr) \<and>
               (processChunksSequentially (bedrockClient e) chunks tr = (Inr chunkSummaries, tr1) \<longrightarrow>
                 (let command = FinalRequest (js_join finalSeparator chunkSummaries);
                      tr2 = tr1 @ [Wait 3000, Invoke command];
                      summaryKey =
                        js_replace (js_replace key (ascii ''pdfs/'') (ascii ''summaries/''))
                          (ascii ''.pdf'') (ascii ''.txt'');
                      detailedSummaryKey =
                        js_replace (js_replace key (ascii ''pdfs/'') (ascii ''summaries/detailed_''))
                          (ascii ''.pdf'') (ascii ''.txt'');
                      detailedSummary = js_join detailedSeparator chunkSummaries;
                      tr3 = tr2 @ [Put bucket summaryKey finalSummary]
                  in
                   (bedrockClient e (tr1 @ [Wait 3000]) command = Inl error
                      \<longrightarrow> handler e event tr = Some (failure error, tr2) \<and> stored tr2 = stored tr) \<and>
                   (bedrockClient e (tr1 @ [Wait 3000]) command = Inr finalSummary \<longrightarrow>
                     (putObject e tr2 bucket summaryKey finalSummary = Inl error
                        \<longrightarrow> handler e event tr = Some (failure error, tr2) \<and>
                            stored tr2 = stored tr) \<and>
                     (putObject e tr2 bucket summaryKey finalSummary = Inr () \<longrightarrow>
                       (putObject e tr3 bucket detailedSummaryKey detailedSummary = Inl error
                          \<longrightarrow> handler e event tr = Some (failure error, tr3) \<and>
                              stored tr3 = stored tr @ [(bucket, summaryKey, finalSummary)]) \<and>
                       (putObject e tr3 bucket detailedSummaryKey detailedSummary = Inr ()
                          \<longrightarrow> handler e event tr =
                                Some (\<lparr>statusCode = 200,
                                       body = Processed
                                         (ascii ''PDF successfully processed and summaries created'')
                                         summaryKey detailedSummaryKey\<rparr>,
                                      tr3 @ [Put bucket detailedSummaryKey detailedSummary]) \<and>
                              stored (tr3 @ [Put bucket detailedSummaryKey detailedSummary]) =
                                stored tr @ [(bucket, summaryKey, finalSummary),
                                             (bucket, detailedSummaryKey, detailedSummary)])))))))))))"
proof
  show "\<exists>resp tr'. handler e event tr = Some (resp, tr') \<and>
     ((\<exists>bucket k1 k2 sums tr2 finalSummary.
         resp = \<lparr>statusCode = 200,
                 body = Processed (ascii ''PDF successfully processed and summaries created'') k1 k2\<rparr> \<and>
         bedrockClient e tr2 (FinalRequest (js_join finalSeparator sums)) = Inr finalSummary \<and>
         stored tr' = stored tr @ [(bucket, k1, finalSummary),
                                   (bucket, k2, js_join detailedSeparator sums)]) \<or>
      (\<exists>error :: jserror.
         resp = \<lparr>statusCode = 500,
                 body = Failure (ascii ''Failed to process PDF'') (message error)\<rparr> \<and>
         (stored tr' = stored tr \<or>
          (\<exists>bucket k1 k2 sums tr2 finalSummary.
             bedrockClient e tr2 (FinalRequest (js_join finalSeparator sums)) = Inr finalSummary \<and>
             putObject e tr' bucket k2 (js_join detailedSeparator sums) = Inl error \<and>
             stored tr' = stored tr @ [(bucket, k1, finalSummary)]))))"
    by (rule handler_returns)
  show "(let failure = (\<lambda>error :: jserror.
          \<lparr>statusCode = 500,
           body = Failure (ascii ''Failed to process PDF'') (message error)\<rparr>)
    in
     (event = Malformed error \<longrightarrow> handler e event tr = Some (failure error, tr)) \<and>
     (event = S3Put bucket rawKey \<longrightarrow>
       (decodeURIComponent e (plusToSpace rawKey) = Inl error
          \<longrightarrow> handler e event tr = Some (failure error, tr)) \<and>
       (decodeURIComponent e (plusToSpace rawKey) = Inr key \<longrightarrow>
         (getObject e bucket key = Inl error
            \<longrightarrow> handler e event tr = Some (failure error, tr)) \<and>
         (getObject e bucket key = Inr pdfBuffer \<longrightarrow>
           (pdfParse e pdfBuffer = Inl error
              \<longrightarrow> handler e event tr = Some (failure error, tr)) \<and>
           (pdfParse e pdfBuffer = Inr fullText \<longrightarrow>
             (\<exists>cs. splitTextIntoChunks fullText defaultChunkSize = Some cs) \<and>
             (splitTextIntoChunks fullText defaultChunkSize = Some chunks \<longrightarrow>
               (processChunksSequentially (bedrockClient e) chunks tr = (Inl error, tr1)
                  \<longrightarrow> handler e event tr = Some (failure error, tr1) \<and> stored tr1 = stored tr) \<and>
               (processChunksSequentially (bedrockClient e) chunks tr = (Inr chunkSummaries, tr1) \<longrightarrow>
                 (let command = FinalRequest (js_join finalSeparator chunkSummaries);
                      tr2 = tr1 @ [Wait 3000, Invoke command];
                      summaryKey =
                        js_replace (js_replace key (ascii ''pdfs/'') (ascii ''summaries/''))
                          (ascii ''.pdf'') (ascii ''.txt'');
                      detailedSummaryKey =
                        js_replace (js_replace key (ascii ''pdfs/'') (ascii ''summaries/detailed_''))
                          (ascii ''.pdf'') (ascii ''.txt'');
                      detailedSummary = js_join detailedSeparator chunkSummaries;
                      tr3 = tr2 @ [Put bucket summaryKey finalSummary]
                  in
                   (bedrockClient e (tr1 @ [Wait 3000]) command = Inl error
                      \<longrightarrow> handler e event tr = Some (failure error, tr2) \<and> stored tr2 = stored tr) \<and>
                   (bedrockClient e (tr1 @ [Wait 3000]) command = Inr finalSummary \<longrightarrow>
                     (putObject e tr2 bucket summaryKey finalSummary = Inl error
                        \<longrightarrow> handler e event tr = Some (failure error, tr2) \<and>
                            stored tr2 = stored tr) \<and>
                     (putObject e tr2 bucket summaryKey finalSummary = Inr () \<longrightarrow>
                       (putObject e tr3 bucket detailedSummaryKey detailedSummary = Inl error
                          \<longrightarrow> handler e event tr = Some (failure error, tr3) \<and>
                              stored tr3 = stored tr @ [(bucket, summaryKey, finalSummary)]) \<and>
                       (putObject e tr3 bucket detailedSummaryKey detailedSummary = Inr ()
                          \<longrightarrow> handler e event tr =
                                Some (\<lparr>statusCode = 200,
                                       body = Processed
                                         (ascii ''PDF successfully processed and summaries created'')
                                         summaryKey detailedSummaryKey\<rparr>,
                                      tr3 @ [Put bucket detailedSummaryKey detailedSummary]) \<and>
                              stored (tr3 @ [Put bucket detailedSummaryKey detailedSummary]) =
                                stored tr @ [(bucket, summaryKey, finalSummary),
                                             (bucket, detailedSummaryKey, detailedSummary)])))))))))))"
    unfolding Let_def
    using defaultChunkSize_total[of fullText]
    by (auto simp: handler_def failed_def generateFinalSummary_def wait_def Let_def stored_append
        dest: stored_processChunksSequentially)
qed

theorem handler_outcomes_witness:
  "handler (stubEnv (ascii ''Hi.'') summaryStub) (S3Put (ascii ''b'') (ascii ''pdfs/x.pdf'')) [] =
     Some (\<lparr>statusCode = 200,
            body = Processed (ascii ''PDF successfully processed and summaries created'')
              (ascii ''summaries/x.txt'') (ascii ''summaries/detailed_x.txt'')\<rparr>,
           [Invoke (ChunkRequest (ascii ''Hi.'') 0 1), Wait 3000,
            Invoke (FinalRequest (ascii ''summary-0'')),
            Put (ascii ''b'') (ascii ''summaries/x.txt'') (ascii ''final-summary''),
            Put (ascii ''b'') (ascii ''summaries/detailed_x.txt'') (ascii ''summary-0'')]) \<and>
   handler (secondPutFails (ascii ''Hi.'') summaryStub) (S3Put (ascii ''b'') (ascii ''pdfs/x.pdf'')) [] =
     Some (\<lparr>statusCode = 500,
            body = Failure (ascii ''Failed to process PDF'') (message storageError)\<rparr>,
           [Invoke (ChunkRequest (ascii ''Hi.'') 0 1), Wait 3000,
            Invoke (FinalRequest (ascii ''summary-0'')),
            Put (ascii ''b'') (ascii ''summaries/x.txt'') (ascii ''final-summary'')]) \<and>
   handler (stubEnv (ascii ''Hi.'') alwaysFatal) (S3Put (ascii ''b'') (ascii ''pdfs/x.pdf'')) [] =
     Some (\<lparr>statusCode = 500,
            body = Failure (ascii ''Failed to process PDF'') (message fatalError)\<rparr>,
           [Invoke (ChunkRequest (ascii ''Hi.'') 0 1)])"
proof -
  have s: "splitTextIntoChunks (ascii ''Hi.'') defaultChunkSize = Some [ascii ''Hi.'']"
    by (rule splitTextIntoChunks_single) (simp_all add: ascii_def defaultChunkSize_def)
  note facts = s witness_key processChunksSequentially_one processChunksSequentially_fatal
  have ok: "handler (stubEnv (ascii ''Hi.'') summaryStub) (S3Put (ascii ''b'') (ascii ''pdfs/x.pdf'')) [] =
     Some (\<lparr>statusCode = 200,
            body = Processed (ascii ''PDF successfully processed and summaries created'')
              (ascii ''summaries/x.txt'') (ascii ''summaries/detailed_x.txt'')\<rparr>,
           [Invoke (ChunkRequest (ascii ''Hi.'') 0 1), Wait 3000,
            Invoke (FinalRequest (ascii ''summary-0'')),
            Put (ascii ''b'') (ascii ''summaries/x.txt'') (ascii ''final-summary''),
            Put (ascii ''b'') (ascii ''summaries/detailed_x.txt'') (ascii ''summary-0'')])"
    using handler_outcomes[where e = "stubEnv (ascii ''Hi.'') summaryStub"
        and event = "S3Put (ascii ''b'') (ascii ''pdfs/x.pdf'')" and tr = "[]"
        and bucket = "ascii ''b''" and rawKey = "ascii ''pdfs/x.pdf''"
        and key = "ascii ''pdfs/x.pdf''" and pdfBuffer = "[]" and fullText = "ascii ''Hi.''"
        and chunks = "[ascii ''Hi.'']" and ?tr1.0 = "[Invoke (ChunkRequest (ascii ''Hi.'') 0 1)]"
        and chunkSummaries = "[ascii ''summary-0'']" and finalSummary = "ascii ''final-summary''"]
    by (simp add: Let_def stubEnv_def summaryStub_def facts)
  have put2: "handler (secondPutFails (ascii ''Hi.'') summaryStub)
       (S3Put (ascii ''b'') (ascii ''pdfs/x.pdf'')) [] =
     Some (\<lparr>statusCode = 500,
            body = Failure (ascii ''Failed to process PDF'') (message storageError)\<rparr>,
           [Invoke (ChunkRequest (ascii ''Hi.'') 0 1), Wait 3000,
            Invoke (FinalRequest (ascii ''summary-0'')),
            Put (ascii ''b'') (ascii ''summaries/x.txt'') (ascii ''final-summary'')])"
    using handler_outcomes[where e = "secondPutFails (ascii ''Hi.'') summaryStub"
        and event = "S3Put (ascii ''b'') (ascii ''pdfs/x.pdf'')" and tr = "[]"
        and bucket = "ascii ''b''" and rawKey = "ascii ''pdfs/x.pdf''"
        and key = "ascii ''pdfs/x.pdf''" and pdfBuffer = "[]" and fullText = "ascii ''Hi.''"
        and chunks = "[ascii ''Hi.'']" and ?tr1.0 = "[Invoke (ChunkRequest (ascii ''Hi.'') 0 1)]"
        and chunkSummaries = "[ascii ''summary-0'']" and finalSummary = "ascii ''final-summary''"
        and error = storageError]
    by (simp add: Let_def secondPutFails_def stubEnv_def summaryStub_def facts)
  have fatal: "handler (stubEnv (ascii ''Hi.'') alwaysFatal)
       (S3Put (ascii ''b'') (ascii ''pdfs/x.pdf'')) [] =
     Some (\<lparr>statusCode = 500,
            body = Failure (ascii ''Failed to process PDF'') (message fatalError)\<rparr>,
           [Invoke (ChunkRequest (ascii ''Hi.'') 0 1)])"
    using handler_outcomes[where e = "stubEnv (ascii ''Hi.'') alwaysFatal"
        and event = "S3Put (ascii ''b'') (ascii ''pdfs/x.pdf'')" and tr = "[]"
        and bucket = "ascii ''b''" and rawKey = "ascii ''pdfs/x.pdf''"
        and key = "ascii ''pdfs/x.pdf''" and pdfBuffer = "[]" and fullText = "ascii ''Hi.''"
        and chunks = "[ascii ''Hi.'']" and ?tr1.0 = "[Invoke (ChunkRequest (ascii ''Hi.'') 0 1)]"
        and error = fatalError]
    by (simp add: Let_def stubEnv_def facts)
  from ok put2 fatal show ?thesis by blast
qed

end
